theory Spec2Isabelle
  imports Complex_Main "HOL-Library.Char_ord" "HOL-Library.List_Lexorder" "HOL-Library.Multiset"
begin

section \<open>Values of the Python program\<close>

text \<open>
  The agent (\<^verbatim>\<open>src/agent/main.py\<close>) handles values decoded from JSON documents: the voice
  catalogue and the knowledge base. They are typed \<^verbatim>\<open>Any\<close> in the source, so the model keeps
  the whole JSON value and writes out what Python does on each shape.

  A Python \<^verbatim>\<open>str\<close> is a \<open>string\<close>, each \<open>char\<close> standing for a code point below 256; a
  \<^verbatim>\<open>dict\<close> decoded from JSON is an association list in insertion order, read with \<open>map_of\<close>. A \<^verbatim>\<open>float\<close> is its value together with
  the text that \<^verbatim>\<open>json.dumps\<close> writes for it (\<^verbatim>\<open>float.__repr__\<close>, which is not computed here);
  the values \<^verbatim>\<open>NaN\<close> and \<^verbatim>\<open>Infinity\<close>, which are not JSON, are left out.
\<close>

datatype json =
    JNull
  | JBool bool
  | JInt int
  | JFloat real string
  | JStr string
  | JArr "json list"
  | JObj "(string \<times> json) list"

text \<open>
  The exceptions the program can meet. \<open>RequestException\<close> stands for
  \<^verbatim>\<open>requests.RequestException\<close> and its subclasses, with the text of \<^verbatim>\<open>str(e)\<close>.
  \<open>OtherException\<close> is any exception that is no \<^verbatim>\<open>RequestException\<close> and that the other
  constructors do not name.
\<close>

datatype pyexc =
    KeyError string
  | TypeError
  | AttributeError
  | RequestException string
  | OtherException string

text \<open>A value stored in \<^verbatim>\<open>proc.userdata\<close>: the loaded detection model or a JSON value.\<close>

datatype pyobj = VadModel | Json json

text \<open>
  What the program does that the outside can see: log records, utterances handed to the
  agent (\<^verbatim>\<open>await agent.say(text, allow_interruptions=b)\<close>), utterances scheduled as a task
  (\<^verbatim>\<open>asyncio.create_task(agent.say(...))\<close>), handler registrations, and the calls on the room.
\<close>

datatype level = INFO | WARNING

datatype effect =
    Log level string
  | Say string bool
  | CreateTaskSay string bool
  | RoomOn string
  | AgentOn string
  | Connect
  | SetAttributes "(string \<times> string) list"
  | Start

subsection \<open>Python's operations on JSON values\<close>

text \<open>Truth value of a value, as \<^verbatim>\<open>if x:\<close> and \<^verbatim>\<open>not x\<close> test it.\<close>

fun truthy :: "json \<Rightarrow> bool" where
  "truthy JNull = False"
| "truthy (JBool b) = b"
| "truthy (JInt n) = (n \<noteq> 0)"
| "truthy (JFloat v t) = (v \<noteq> 0)"
| "truthy (JStr s) = (s \<noteq> [])"
| "truthy (JArr xs) = (xs \<noteq> [])"
| "truthy (JObj kvs) = (kvs \<noteq> [])"

fun obj_truthy :: "pyobj \<Rightarrow> bool" where
  "obj_truthy VadModel = True"
| "obj_truthy (Json j) = truthy j"

text \<open>
  \<^verbatim>\<open>for x in v\<close>: a list yields its elements, a dict its keys, a string its characters;
  anything else is not iterable.
\<close>

fun py_iter :: "json \<Rightarrow> pyexc + json list" where
  "py_iter (JArr xs) = Inr xs"
| "py_iter (JObj kvs) = Inr (map (\<lambda>kv. JStr (fst kv)) kvs)"
| "py_iter (JStr s) = Inr (map (\<lambda>c. JStr [c]) s)"
| "py_iter _ = Inl TypeError"

fun obj_iter :: "pyobj \<Rightarrow> pyexc + json list" where
  "obj_iter VadModel = Inl TypeError"
| "obj_iter (Json j) = py_iter j"

text \<open>
  \<^verbatim>\<open>v[key]\<close> with a string key: a dict looks the key up and raises \<^verbatim>\<open>KeyError\<close> when it is
  missing; every other value raises \<^verbatim>\<open>TypeError\<close>.
\<close>

fun getitem :: "json \<Rightarrow> string \<Rightarrow> pyexc + json" where
  "getitem (JObj kvs) k = (case map_of kvs k of None \<Rightarrow> Inl (KeyError k) | Some v \<Rightarrow> Inr v)"
| "getitem _ k = Inl TypeError"

text \<open>Evaluating a list of results in order; the first exception ends it.\<close>

fun collect :: "(pyexc + 'a) list \<Rightarrow> pyexc + 'a list" where
  "collect [] = Inr []"
| "collect (r # rs) =
     (case r of
        Inl e \<Rightarrow> Inl e
      | Inr x \<Rightarrow> (case collect rs of Inl e \<Rightarrow> Inl e | Inr xs \<Rightarrow> Inr (x # xs)))"

text \<open>\<^verbatim>\<open>sep.join(items)\<close> on strings.\<close>

fun join_str :: "string \<Rightarrow> string list \<Rightarrow> string" where
  "join_str sep [] = []"
| "join_str sep [x] = x"
| "join_str sep (x # y # ys) = x @ sep @ join_str sep (y # ys)"

fun is_JStr :: "json \<Rightarrow> bool" where
  "is_JStr (JStr s) = True"
| "is_JStr _ = False"

fun str_of :: "json \<Rightarrow> string" where
  "str_of (JStr s) = s"
| "str_of _ = []"

text \<open>\<^verbatim>\<open>sep.join(items)\<close> on values: an item that is no \<^verbatim>\<open>str\<close> raises \<^verbatim>\<open>TypeError\<close>.\<close>

definition py_join :: "string \<Rightarrow> json list \<Rightarrow> pyexc + string" where
  "py_join sep items =
     (if list_all is_JStr items then Inr (join_str sep (map str_of items)) else Inl TypeError)"

subsection \<open>Comparing values\<close>

text \<open>
  The numbers are \<^verbatim>\<open>bool\<close>, \<^verbatim>\<open>int\<close> and \<^verbatim>\<open>float\<close>; Python compares them by value, with
  \<^verbatim>\<open>True\<close> as 1 and \<^verbatim>\<open>False\<close> as 0.
\<close>

fun is_number :: "json \<Rightarrow> bool" where
  "is_number (JBool b) = True"
| "is_number (JInt n) = True"
| "is_number (JFloat v t) = True"
| "is_number _ = False"

fun number_value :: "json \<Rightarrow> real" where
  "number_value (JBool b) = (if b then 1 else 0)"
| "number_value (JInt n) = of_int n"
| "number_value (JFloat v t) = v"
| "number_value _ = 0"

text \<open>
  \<^verbatim>\<open>a == b\<close>, which never raises on these values: numbers by value, strings and
  \<^verbatim>\<open>None\<close> as they are, lists item by item, dicts key by key (the keys of a decoded dict
  are distinct), and values of different kinds are unequal.
\<close>

fun py_eq :: "json \<Rightarrow> json \<Rightarrow> bool" where
  "py_eq JNull b = (b = JNull)"
| "py_eq (JStr s) b = (b = JStr s)"
| "py_eq (JArr xs) b = (case b of JArr ys \<Rightarrow> list_all2 py_eq xs ys | _ \<Rightarrow> False)"
| "py_eq (JObj kvs) b =
     (case b of
        JObj kvs' \<Rightarrow>
          length kvs = length kvs'
          \<and> list_all (\<lambda>kv. case map_of kvs' (fst kv) of None \<Rightarrow> False | Some w \<Rightarrow> py_eq (snd kv) w) kvs
      | _ \<Rightarrow> False)"
| "py_eq a b = (is_number b \<and> number_value a = number_value b)"

text \<open>
  \<^verbatim>\<open>a < b\<close>: numbers by value, strings by code point, lists by the first pair of items
  that are not equal (or by length when there is none); \<^verbatim>\<open>None\<close>, dicts and values of
  different kinds raise \<^verbatim>\<open>TypeError\<close>.
\<close>

fun py_lt :: "json \<Rightarrow> json \<Rightarrow> pyexc + bool"
  and lt_items :: "json list \<Rightarrow> json list \<Rightarrow> pyexc + bool" where
  "py_lt JNull b = Inl TypeError"
| "py_lt (JStr s) b = (case b of JStr t \<Rightarrow> Inr (s < t) | _ \<Rightarrow> Inl TypeError)"
| "py_lt (JArr xs) b = (case b of JArr ys \<Rightarrow> lt_items xs ys | _ \<Rightarrow> Inl TypeError)"
| "py_lt (JObj kvs) b = Inl TypeError"
| "py_lt a b = (if is_number b then Inr (number_value a < number_value b) else Inl TypeError)"
| "lt_items [] ys = Inr (ys \<noteq> [])"
| "lt_items (x # xs) [] = Inr False"
| "lt_items (x # xs) (y # ys) = (if py_eq x y then lt_items xs ys else py_lt x y)"

subsection \<open>Sorting a list\<close>

text \<open>
  \<^verbatim>\<open>list.sort\<close> compares entries with \<^verbatim>\<open><\<close> only, and an exception of a comparison ends
  it. \<open>list_sort\<close> is the algorithm of CPython (\<^verbatim>\<open>listobject.c\<close>, up to version 3.12) for a
  list of fewer than 64 entries. A list of fewer than two entries is left alone, with no
  comparison. Otherwise the run at the start of the list is found, by comparing each
  entry with the one before it: ascending, or strictly descending and then reversed
  (\<^verbatim>\<open>count_run\<close>). Every further entry is then inserted into the sorted part at the
  place a binary search finds, behind the entries it is not less than (\<^verbatim>\<open>binarysort\<close>).
  For 64 entries and more CPython sorts stretches of the list this way and merges them;
  both are stable sorts, so they agree on every list whose entries \<^verbatim>\<open><\<close> orders, and the
  model uses the one algorithm at every length.
\<close>

fun bsearch :: "('a \<Rightarrow> 'a \<Rightarrow> pyexc + bool) \<Rightarrow> 'a \<Rightarrow> 'a list \<Rightarrow> pyexc + nat" where
  "bsearch lt pivot xs =
     (if xs = [] then Inr 0
      else
        (case lt pivot (xs ! (length xs div 2)) of
           Inl e \<Rightarrow> Inl e
         | Inr True \<Rightarrow> bsearch lt pivot (take (length xs div 2) xs)
         | Inr False \<Rightarrow>
             (case bsearch lt pivot (drop (Suc (length xs div 2)) xs) of
                Inl e \<Rightarrow> Inl e
              | Inr l \<Rightarrow> Inr (Suc (length xs div 2) + l))))"

declare bsearch.simps [simp del]

fun binarysort :: "('a \<Rightarrow> 'a \<Rightarrow> pyexc + bool) \<Rightarrow> 'a list \<Rightarrow> 'a list \<Rightarrow> pyexc + 'a list" where
  "binarysort lt ordered [] = Inr ordered"
| "binarysort lt ordered (pivot # rest) =
     (case bsearch lt pivot ordered of
        Inl e \<Rightarrow> Inl e
      | Inr l \<Rightarrow> binarysort lt (take l ordered @ pivot # drop l ordered) rest)"

fun run_ascending :: "('a \<Rightarrow> 'a \<Rightarrow> pyexc + bool) \<Rightarrow> 'a \<Rightarrow> 'a list \<Rightarrow> pyexc + nat" where
  "run_ascending lt prev [] = Inr 0"
| "run_ascending lt prev (x # xs) =
     (case lt x prev of
        Inl e \<Rightarrow> Inl e
      | Inr True \<Rightarrow> Inr 0
      | Inr False \<Rightarrow> (case run_ascending lt x xs of Inl e \<Rightarrow> Inl e | Inr n \<Rightarrow> Inr (Suc n)))"

fun run_descending :: "('a \<Rightarrow> 'a \<Rightarrow> pyexc + bool) \<Rightarrow> 'a \<Rightarrow> 'a list \<Rightarrow> pyexc + nat" where
  "run_descending lt prev [] = Inr 0"
| "run_descending lt prev (x # xs) =
     (case lt x prev of
        Inl e \<Rightarrow> Inl e
      | Inr True \<Rightarrow> (case run_descending lt x xs of Inl e \<Rightarrow> Inl e | Inr n \<Rightarrow> Inr (Suc n))
      | Inr False \<Rightarrow> Inr 0)"

definition list_sort :: "('a \<Rightarrow> 'a \<Rightarrow> pyexc + bool) \<Rightarrow> 'a list \<Rightarrow> pyexc + 'a list" where
  "list_sort lt xs =
     (case xs of
        [] \<Rightarrow> Inr []
      | [x] \<Rightarrow> Inr [x]
      | a # b # rest \<Rightarrow>
          (case lt b a of
             Inl e \<Rightarrow> Inl e
           | Inr True \<Rightarrow>
               (case run_descending lt b rest of
                  Inl e \<Rightarrow> Inl e
                | Inr n \<Rightarrow> binarysort lt (rev (take (2 + n) xs)) (drop (2 + n) xs))
           | Inr False \<Rightarrow>
               (case run_ascending lt b rest of
                  Inl e \<Rightarrow> Inl e
                | Inr n \<Rightarrow> binarysort lt (take (2 + n) xs) (drop (2 + n) xs))))"


subsection \<open>Decimal text of an integer\<close>

fun digits :: "nat \<Rightarrow> string" where
  "digits n = (if n < 10 then [''0123456789'' ! n] else digits (n div 10) @ [''0123456789'' ! (n mod 10)])"

declare digits.simps [simp del]

definition str_int :: "int \<Rightarrow> string" where
  "str_int i = (if i < 0 then CHR ''-'' # digits (nat (- i)) else digits (nat i))"

section \<open>The startup preparer: \<^verbatim>\<open>prewarm\<close>\<close>

text \<open>
  The outside world of \<^verbatim>\<open>prewarm\<close>: whether \<^verbatim>\<open>silero.VAD.load()\<close> raises, the process
  environment, and what \<^verbatim>\<open>requests.get\<close> does for a URL and its headers (it raises, or
  returns a response). Of a response the program reads \<^verbatim>\<open>status_code\<close>, calls \<^verbatim>\<open>json()\<close>
  (which returns the decoded body or raises) and \<^verbatim>\<open>raise_for_status()\<close> (which returns or
  raises). These belong to the \<^verbatim>\<open>requests\<close> library, so they are inputs of the model.
\<close>

record response =
  status_code :: int
  response_json :: "pyexc + json"
  raise_for_status :: "pyexc option"

record prewarm_env =
  vad_load :: "pyexc option"
  getenv :: "string \<rightharpoonup> string"
  requests_get :: "string \<Rightarrow> (string \<times> string) list \<Rightarrow> pyexc + response"

type_synonym userdata = "string \<rightharpoonup> pyobj"

text \<open>
  Lines 27 to 36: the catalogue request. Each step returns the log records it wrote, the
  exception that left it (if any) and the user data after it.
\<close>

definition voices_url :: string where
  "voices_url = ''https://api.cartesia.ai/voices''"

definition voices_headers :: "prewarm_env \<Rightarrow> (string \<times> string) list" where
  "voices_headers env =
     [(''X-API-Key'', (case getenv env ''CARTESIA_API_KEY'' of None \<Rightarrow> [] | Some k \<Rightarrow> k)),
      (''Cartesia-Version'', ''2024-08-01''),
      (''Content-Type'', ''application/json'')]"

definition fetch_voices :: "prewarm_env \<Rightarrow> userdata \<Rightarrow> effect list \<times> pyexc option \<times> userdata" where
  "fetch_voices env ud =
     (case requests_get env voices_url (voices_headers env) of
        Inl e \<Rightarrow> ([], Some e, ud)
      | Inr r \<Rightarrow>
          if status_code r = 200 then
            (case response_json r of
               Inl e \<Rightarrow> ([], Some e, ud)
             | Inr j \<Rightarrow> ([], None, ud(''cartesia_voices'' \<mapsto> Json j)))
          else
            ([Log WARNING (''Failed to fetch Cartesia voices: '' @ str_int (status_code r))],
             None, ud))"

text \<open>
  Lines 39 to 46: the knowledge-base request. The three calls of the \<^verbatim>\<open>try\<close> block run in
  order; \<^verbatim>\<open>except requests.RequestException\<close> catches that class only.
\<close>

definition knowledge_base_url :: string where
  "knowledge_base_url = ''https://alex.aitekph.com/knowledgedata.json''"

definition kb_attempt :: "prewarm_env \<Rightarrow> pyexc + json" where
  "kb_attempt env =
     (case requests_get env knowledge_base_url [] of
        Inl e \<Rightarrow> Inl e
      | Inr r \<Rightarrow>
          (case raise_for_status r of
             Some e \<Rightarrow> Inl e
           | None \<Rightarrow> response_json r))"

definition load_knowledge_base :: "prewarm_env \<Rightarrow> userdata \<Rightarrow> effect list \<times> pyexc option \<times> userdata" where
  "load_knowledge_base env ud =
     (case kb_attempt env of
        Inr j \<Rightarrow>
          ([Log INFO ''Knowledge base loaded successfully.''], None,
           ud(''knowledge_base'' \<mapsto> Json j))
      | Inl (RequestException msg) \<Rightarrow>
          ([Log WARNING (''Failed to load knowledge base: '' @ msg)], None, ud)
      | Inl e \<Rightarrow> ([], Some e, ud))"

definition prewarm :: "prewarm_env \<Rightarrow> userdata \<Rightarrow> effect list \<times> pyexc option \<times> userdata" where
  "prewarm env ud =
     (case vad_load env of
        Some e \<Rightarrow> ([], Some e, ud)
      | None \<Rightarrow>
          (case fetch_voices env (ud(''vad'' \<mapsto> VadModel)) of
             (log1, Some e, ud1) \<Rightarrow> (log1, Some e, ud1)
           | (log1, None, ud1) \<Rightarrow>
               (case load_knowledge_base env ud1 of
                  (log2, x, ud2) \<Rightarrow> (log1 @ log2, x, ud2))))"

section \<open>The session orchestrator: \<^verbatim>\<open>entrypoint\<close>\<close>

subsection \<open>The first greeting (lines 107 to 112)\<close>

definition generic_greeting :: string where
  "generic_greeting = ''Hi there, how are you doing today?''"

definition services_greeting :: "string \<Rightarrow> string" where
  "services_greeting service_names =
     ''Hi there! I'm Alex, your Aitek PH assistant. Here to help you with services like ''
     @ service_names @ ''. How can I assist you today?''"

text \<open>
  \<^verbatim>\<open>", ".join(service["name"] for service in services)\<close>: the generator is consumed first
  (an entry that cannot be indexed raises there), then every item must be a \<^verbatim>\<open>str\<close>.
\<close>

definition service_names_of :: "json \<Rightarrow> pyexc + string" where
  "service_names_of services =
     (case py_iter services of
        Inl e \<Rightarrow> Inl e
      | Inr entries \<Rightarrow>
          (case collect (map (\<lambda>service. getitem service ''name'') entries) of
             Inl e \<Rightarrow> Inl e
           | Inr names \<Rightarrow> py_join '', '' names))"

text \<open>
  The text of the first greeting. A knowledge base that is true but no dict has no
  \<^verbatim>\<open>get\<close> method.
\<close>

definition first_greeting :: "pyobj \<Rightarrow> pyexc + string" where
  "first_greeting knowledge_base =
     (if obj_truthy knowledge_base then
        (case knowledge_base of
           Json (JObj kvs) \<Rightarrow>
             (let services = (case map_of kvs ''services'' of None \<Rightarrow> JArr [] | Some v \<Rightarrow> v)
              in case service_names_of services of
                   Inl e \<Rightarrow> Inl e
                 | Inr service_names \<Rightarrow> Inr (services_greeting service_names))
         | _ \<Rightarrow> Inl AttributeError)
      else Inr generic_greeting)"

subsection \<open>The published voice list (lines 176 to 178)\<close>

text \<open>
  One entry of the reduced list, \<^verbatim>\<open>{"id": voice["id"], "name": voice["name"]}\<close>, is the pair
  of its two values; \<open>reduced_json\<close> is the dict that is encoded.
\<close>

definition reduce_voice :: "json \<Rightarrow> pyexc + (json \<times> json)" where
  "reduce_voice voice =
     (case getitem voice ''id'' of
        Inl e \<Rightarrow> Inl e
      | Inr i \<Rightarrow>
          (case getitem voice ''name'' of
             Inl e \<Rightarrow> Inl e
           | Inr n \<Rightarrow> Inr (i, n)))"

definition reduced_json :: "json \<times> json \<Rightarrow> json" where
  "reduced_json v = JObj [(''id'', fst v), (''name'', snd v)]"

text \<open>
  Line 177, \<^verbatim>\<open>voices.sort(key=lambda x: x["name"])\<close>: the entries are sorted by comparing
  their names.
\<close>

definition sort_by_name :: "(json \<times> json) list \<Rightarrow> pyexc + (json \<times> json) list" where
  "sort_by_name voices = list_sort (\<lambda>u v. py_lt (snd u) (snd v)) voices"

text \<open>
  \<^verbatim>\<open>json.dumps\<close> with its defaults: separators \<^verbatim>\<open>", "\<close> and \<^verbatim>\<open>": "\<close>, and
  \<^verbatim>\<open>ensure_ascii\<close>, which escapes the quote, the backslash and every character outside
  the printable ASCII range. A \<open>char\<close> of the model is a code point below 256, so the
  escape of such a character is \<^verbatim>\<open>\u00XX\<close>.
\<close>

definition hex_digit :: "nat \<Rightarrow> char" where
  "hex_digit n = ''0123456789abcdef'' ! n"

definition escape_char :: "char \<Rightarrow> string" where
  "escape_char c =
     (if c = CHR 0x22 then [CHR 0x5C, CHR 0x22]
      else if c = CHR 0x5C then [CHR 0x5C, CHR 0x5C]
      else if c = CHR 0x0A then [CHR 0x5C, CHR ''n'']
      else if c = CHR 0x0D then [CHR 0x5C, CHR ''r'']
      else if c = CHR 0x09 then [CHR 0x5C, CHR ''t'']
      else if c = CHR 0x08 then [CHR 0x5C, CHR ''b'']
      else if c = CHR 0x0C then [CHR 0x5C, CHR ''f'']
      else if 0x20 \<le> (of_char c :: nat) \<and> (of_char c :: nat) \<le> 0x7E then [c]
      else [CHR 0x5C, CHR ''u'', CHR ''0'', CHR ''0'',
            hex_digit ((of_char c :: nat) div 16), hex_digit ((of_char c :: nat) mod 16)])"

definition dumps_str :: "string \<Rightarrow> string" where
  "dumps_str s = CHR 0x22 # concat (map escape_char s) @ [CHR 0x22]"

fun json_dumps :: "json \<Rightarrow> string" where
  "json_dumps JNull = ''null''"
| "json_dumps (JBool b) = (if b then ''true'' else ''false'')"
| "json_dumps (JInt n) = str_int n"
| "json_dumps (JFloat v t) = t"
| "json_dumps (JStr s) = dumps_str s"
| "json_dumps (JArr xs) = ''['' @ join_str '', '' (map json_dumps xs) @ '']''"
| "json_dumps (JObj kvs) =
     ''{'' @ join_str '', '' (map (\<lambda>kv. dumps_str (fst kv) @ '': '' @ json_dumps (snd kv)) kvs) @ ''}''"

text \<open>
  The value of the attribute \<^verbatim>\<open>"voices"\<close>: the catalogue is iterated, every entry is
  reduced (line 176), the list is sorted by name (line 177) and encoded (line 178).
\<close>

definition voices_attribute :: "pyobj \<Rightarrow> pyexc + string" where
  "voices_attribute cartesia_voices =
     (case obj_iter cartesia_voices of
        Inl e \<Rightarrow> Inl e
      | Inr entries \<Rightarrow>
          (case collect (map reduce_voice entries) of
             Inl e \<Rightarrow> Inl e
           | Inr voices \<Rightarrow>
               (case sort_by_name voices of
                  Inl e \<Rightarrow> Inl e
                | Inr sorted_voices \<Rightarrow> Inr (json_dumps (JArr (map reduced_json sorted_voices))))))"

subsection \<open>The session and its callbacks\<close>

text \<open>
  What the callbacks of one session share: the options of the synthesis adapter
  (\<^verbatim>\<open>tts._opts\<close>) and the two speaking flags, which are local variables of \<^verbatim>\<open>entrypoint\<close>
  captured by the closures.
\<close>

record session =
  tts_voice :: json
  tts_model :: string
  tts_language :: json
  is_user_speaking :: bool
  is_agent_speaking :: bool

datatype participant_kind =
    PARTICIPANT_KIND_STANDARD
  | PARTICIPANT_KIND_INGRESS
  | PARTICIPANT_KIND_EGRESS
  | PARTICIPANT_KIND_SIP
  | PARTICIPANT_KIND_AGENT

record participant =
  kind :: participant_kind
  identity :: string
  attributes :: "string \<rightharpoonup> string"

text \<open>
  Lines 134 to 136: \<^verbatim>\<open>next((voice for voice in cartesia_voices if voice["id"] == voice_id), None)\<close>.
  The generator stops at the first entry whose id equals the request; an entry before it
  that is no dict, or has no \<^verbatim>\<open>"id"\<close>, raises. An entry that is returned is a dict.
\<close>

fun find_voice :: "json list \<Rightarrow> string \<Rightarrow> pyexc + (string \<times> json) list option" where
  "find_voice [] voice_id = Inr None"
| "find_voice (voice # rest) voice_id =
     (case voice of
        JObj kvs \<Rightarrow>
          (case map_of kvs ''id'' of
             None \<Rightarrow> Inl (KeyError ''id'')
           | Some i \<Rightarrow> if i = JStr voice_id then Inr (Some kvs) else find_voice rest voice_id)
      | _ \<Rightarrow> Inl TypeError)"

text \<open>Lines 141 to 145: the model and the language chosen for a voice entry.\<close>

definition choose_model :: "(string \<times> json) list \<Rightarrow> string \<times> json" where
  "choose_model voice_data =
     (case map_of voice_data ''language'' of
        None \<Rightarrow> (''sonic-english'', JStr ''en'')
      | Some l \<Rightarrow>
          if l \<noteq> JStr ''en'' then (''sonic-multilingual'', l) else (''sonic-english'', JStr ''en''))"

definition request_info :: "participant \<Rightarrow> string option \<Rightarrow> effect" where
  "request_info p voice_id =
     Log INFO (''participant '' @ identity p @ '' requested voice change: ''
               @ (case voice_id of None \<Rightarrow> ''None'' | Some v \<Rightarrow> v))"

text \<open>
  Lines 119 to 152. The callback returns what it emitted, the exception that left it (if
  any) and the session after it.
\<close>

definition on_participant_attributes_changed ::
  "pyobj \<Rightarrow> (string \<rightharpoonup> string) \<Rightarrow> participant \<Rightarrow> session \<Rightarrow> effect list \<times> pyexc option \<times> session" where
  "on_participant_attributes_changed cartesia_voices changed_attributes p s =
     (if kind p \<noteq> PARTICIPANT_KIND_STANDARD then ([], None, s)
      else if changed_attributes ''voice'' = None then ([], None, s)
      else
        (let voice_id = attributes p ''voice''; info = request_info p voice_id
         in case voice_id of
              None \<Rightarrow> ([info], None, s)
            | Some vid \<Rightarrow>
                if vid = [] then ([info], None, s)
                else
                  (case obj_iter cartesia_voices of
                     Inl e \<Rightarrow> ([info], Some e, s)
                   | Inr entries \<Rightarrow>
                       (case find_voice entries vid of
                          Inl e \<Rightarrow> ([info], Some e, s)
                        | Inr None \<Rightarrow>
                            ([info, Log WARNING (''Voice '' @ vid @ '' not found'')], None, s)
                        | Inr (Some voice_data) \<Rightarrow>
                            if voice_data = [] then
                              ([info, Log WARNING (''Voice '' @ vid @ '' not found'')], None, s)
                            else
                              (case map_of voice_data ''embedding'' of
                                 None \<Rightarrow> ([info], None, s)
                               | Some embedding \<Rightarrow>
                                   (let s' = s\<lparr>tts_voice := embedding,
                                                tts_model := fst (choose_model voice_data),
                                                tts_language := snd (choose_model voice_data)\<rparr>
                                    in if \<not> (is_agent_speaking s \<or> is_user_speaking s) then
                                         ([info, CreateTaskSay ''How do I sound now?'' True], None, s')
                                       else ([info], None, s')))))))"

text \<open>Lines 156 to 174: the four callbacks on the agent's speaking events.\<close>

definition agent_started_speaking :: "session \<Rightarrow> session" where
  "agent_started_speaking s = s\<lparr>is_agent_speaking := True\<rparr>"

definition agent_stopped_speaking :: "session \<Rightarrow> session" where
  "agent_stopped_speaking s = s\<lparr>is_agent_speaking := False\<rparr>"

definition user_started_speaking :: "session \<Rightarrow> session" where
  "user_started_speaking s = s\<lparr>is_user_speaking := True\<rparr>"

definition user_stopped_speaking :: "session \<Rightarrow> session" where
  "user_stopped_speaking s = s\<lparr>is_user_speaking := False\<rparr>"

subsection \<open>The body of \<^verbatim>\<open>entrypoint\<close>\<close>

text \<open>
  Lines 92 and 93: the two reads of the process-shared user data. \<^verbatim>\<open>get\<close> with a default
  never raises; the subscript raises \<^verbatim>\<open>KeyError\<close> on a missing key.
\<close>

definition read_userdata :: "userdata \<Rightarrow> pyexc + (pyobj \<times> pyobj)" where
  "read_userdata ud =
     (let knowledge_base = (case ud ''knowledge_base'' of None \<Rightarrow> Json (JObj []) | Some v \<Rightarrow> v)
      in case ud ''cartesia_voices'' of
           None \<Rightarrow> Inl (KeyError ''cartesia_voices'')
         | Some cartesia_voices \<Rightarrow> Inr (knowledge_base, cartesia_voices))"

text \<open>
  The session as \<^verbatim>\<open>entrypoint\<close> sets it up: the adapter has the fixed voice of line 96 and
  the model and language that \<^verbatim>\<open>cartesia.TTS\<close> defaults to (parameters here, the library is
  not part of the repository); both flags are false (lines 115 and 116).
\<close>

definition initial_session :: "string \<Rightarrow> json \<Rightarrow> session" where
  "initial_session default_model default_language =
     \<lparr>tts_voice = JStr ''248be419-c632-4f23-adf1-5324ed7dbf1d'',
      tts_model = default_model,
      tts_language = default_language,
      is_user_speaking = False,
      is_agent_speaking = False\<rparr>"

text \<open>
  The whole coroutine, as the effects it has in order and either the exception that
  ended it or the session it set up. The chat context of lines 51 to 90 is constant data
  handed to the framework and has no part in any step below. The constructors of the
  four adapters and of the agent, and the calls into the framework (\<^verbatim>\<open>say\<close>, \<^verbatim>\<open>connect\<close>,
  \<^verbatim>\<open>set_attributes\<close>, \<^verbatim>\<open>start\<close>), are taken to return; events that the framework delivers
  while the coroutine is suspended are handled by the callbacks above.
\<close>

definition entrypoint :: "string \<Rightarrow> json \<Rightarrow> userdata \<Rightarrow> effect list \<times> (pyexc + session)" where
  "entrypoint default_model default_language ud =
     (case read_userdata ud of
        Inl e \<Rightarrow> ([], Inl e)
      | Inr (knowledge_base, cartesia_voices) \<Rightarrow>
          (case ud ''vad'' of
             None \<Rightarrow> ([], Inl (KeyError ''vad''))
           | Some vad \<Rightarrow>
               (case first_greeting knowledge_base of
                  Inl e \<Rightarrow> ([], Inl e)
                | Inr text \<Rightarrow>
                    (let before =
                           [Say text True,
                            RoomOn ''participant_attributes_changed'',
                            Connect,
                            AgentOn ''agent_started_speaking'',
                            AgentOn ''agent_stopped_speaking'',
                            AgentOn ''user_started_speaking'',
                            AgentOn ''user_stopped_speaking'']
                     in case voices_attribute cartesia_voices of
                          Inl e \<Rightarrow> (before, Inl e)
                        | Inr voices_json \<Rightarrow>
                            (before @
                             [SetAttributes [(''voices'', voices_json)],
                              Start,
                              Say generic_greeting True],
                             Inr (initial_session default_model default_language))))))"

section \<open>Example inputs\<close>

text \<open>
  A small catalogue: a Tagalog voice, an English voice, a voice that declares no
  language, and an entry without an embedding.
\<close>

definition ex_catalogue :: "json list" where
  "ex_catalogue =
     [JObj [(''id'', JStr ''v1''), (''name'', JStr ''Bea''),
            (''embedding'', JArr [JFloat 0.25 ''0.25'', JFloat (- 0.5) ''-0.5'']), (''language'', JStr ''tl'')],
      JObj [(''id'', JStr ''v2''), (''name'', JStr ''Al''),
            (''embedding'', JArr [JFloat 1 ''1.0'', JInt 0]), (''language'', JStr ''en'')],
      JObj [(''id'', JStr ''v3''), (''name'', JStr ''Cy''),
            (''embedding'', JArr [JFloat 0.125 ''0.125''])],
      JObj [(''id'', JStr ''v4''), (''name'', JStr ''Dee''), (''language'', JStr ''tl'')]]"

definition ex_participant :: "string \<Rightarrow> participant" where
  "ex_participant voice_id =
     \<lparr>kind = PARTICIPANT_KIND_STANDARD, identity = ''user-1'',
      attributes = [''voice'' \<mapsto> voice_id]\<rparr>"

definition ex_session :: session where
  "ex_session = initial_session ''sonic-english'' (JStr ''en'')"

text \<open>A knowledge base with two services, and the user data of a worker process.\<close>

definition ex_knowledge_base :: json where
  "ex_knowledge_base =
     JObj [(''company'', JStr ''Aitek PH''),
           (''services'', JArr [JObj [(''name'', JStr ''Automation''), (''price'', JInt 100)],
                                JObj [(''name'', JStr ''Chatbots'')]])]"

definition ex_userdata :: userdata where
  "ex_userdata =
     [''vad'' \<mapsto> VadModel, ''cartesia_voices'' \<mapsto> Json (JArr ex_catalogue),
      ''knowledge_base'' \<mapsto> Json ex_knowledge_base]"

definition ex_userdata_no_kb :: userdata where
  "ex_userdata_no_kb = [''vad'' \<mapsto> VadModel, ''cartesia_voices'' \<mapsto> Json (JArr ex_catalogue)]"

text \<open>
  Two worlds for \<^verbatim>\<open>prewarm\<close>: one where both requests succeed, one where the catalogue
  answers 503 and the knowledge-base request fails.
\<close>

definition ex_env_ok :: prewarm_env where
  "ex_env_ok =
     \<lparr>vad_load = None,
      getenv = [''CARTESIA_API_KEY'' \<mapsto> ''secret''],
      requests_get = (\<lambda>url headers.
        if url = voices_url then
          Inr \<lparr>status_code = 200, response_json = Inr (JArr ex_catalogue), raise_for_status = None\<rparr>
        else
          Inr \<lparr>status_code = 200, response_json = Inr ex_knowledge_base, raise_for_status = None\<rparr>)\<rparr>"

definition ex_env_down :: prewarm_env where
  "ex_env_down =
     \<lparr>vad_load = None,
      getenv = Map.empty,
      requests_get = (\<lambda>url headers.
        if url = voices_url then
          Inr \<lparr>status_code = 503, response_json = Inl (RequestException ''no JSON''),
               raise_for_status = Some (RequestException ''503 Server Error'')\<rparr>
        else Inl (RequestException ''connection refused''))\<rparr>"

section \<open>Properties of the voice lookup\<close>

lemma find_voice_Some:
  "find_voice V i = Inr (Some vd) \<Longrightarrow> map_of vd ''id'' = Some (JStr i) \<and> JObj vd \<in> set V"
  by (induction V) (auto split: json.splits option.splits if_splits)

lemma find_voice_no_match:
  "\<forall>v\<in>set V. getitem v ''id'' \<noteq> Inr (JStr i) \<Longrightarrow> find_voice V i \<noteq> Inr (Some vd)"
proof
  assume a: "\<forall>v\<in>set V. getitem v ''id'' \<noteq> Inr (JStr i)" and f: "find_voice V i = Inr (Some vd)"
  from find_voice_Some [OF f] have "map_of vd ''id'' = Some (JStr i)" "JObj vd \<in> set V" by simp_all
  with a show False by force
qed

lemma find_voice_none:
  "\<forall>v\<in>set V. getitem v ''id'' \<noteq> Inr (JStr i) \<Longrightarrow> \<forall>v\<in>set V. \<exists>x. getitem v ''id'' = Inr x
   \<Longrightarrow> find_voice V i = Inr None"
  by (induction V) (auto split: json.splits option.splits if_splits)

lemma handler_applied:
  assumes "kind p = PARTICIPANT_KIND_STANDARD"
    and "''voice'' \<in> dom changed_attributes"
    and "attributes p ''voice'' = Some i" and "i \<noteq> []"
    and "obj_iter cartesia_voices = Inr V"
    and "find_voice V i = Inr (Some voice_data)"
    and "map_of voice_data ''embedding'' = Some embedding"
  shows "on_participant_attributes_changed cartesia_voices changed_attributes p s
         = (if \<not> (is_agent_speaking s \<or> is_user_speaking s)
            then [request_info p (Some i), CreateTaskSay ''How do I sound now?'' True]
            else [request_info p (Some i)],
            None,
            s\<lparr>tts_voice := embedding,
              tts_model := fst (choose_model voice_data),
              tts_language := snd (choose_model voice_data)\<rparr>)"
  using assms find_voice_Some [OF assms(6)]
  by (auto simp: on_participant_attributes_changed_def domIff Let_def)

section \<open>Reading the process-shared user data\<close>

text \<open>
  Claim C1. At session start the two reads of the user data differ: when the key
  \<^verbatim>\<open>"cartesia_voices"\<close> is absent, the subscript of line 93 raises \<^verbatim>\<open>KeyError\<close> and the
  session ends there, before it has done anything; when the key \<^verbatim>\<open>"knowledge_base"\<close> is
  absent, line 92 yields the empty dict and the session runs exactly as it would with an
  empty dict stored under that key.
\<close>

theorem userdata_lookup_asymmetry:
  "(ud ''cartesia_voices'' = None \<longrightarrow>
      read_userdata ud = Inl (KeyError ''cartesia_voices'')
      \<and> entrypoint dm dl ud = ([], Inl (KeyError ''cartesia_voices'')))
   \<and> (ud ''knowledge_base'' = None \<longrightarrow>
      (\<forall>cv. ud ''cartesia_voices'' = Some cv \<longrightarrow> read_userdata ud = Inr (Json (JObj []), cv))
      \<and> entrypoint dm dl ud = entrypoint dm dl (ud(''knowledge_base'' \<mapsto> Json (JObj []))))"
  by (cases "ud ''cartesia_voices''") (simp_all add: read_userdata_def entrypoint_def)

theorem userdata_lookup_asymmetry_witness:
  "entrypoint ''sonic-english'' (JStr ''en'') Map.empty = ([], Inl (KeyError ''cartesia_voices''))
   \<and> read_userdata [''cartesia_voices'' \<mapsto> Json (JArr []), ''vad'' \<mapsto> VadModel]
       = Inr (Json (JObj []), Json (JArr []))"
  using userdata_lookup_asymmetry [of Map.empty "''sonic-english''" "JStr ''en''"]
    userdata_lookup_asymmetry [of "[''cartesia_voices'' \<mapsto> Json (JArr []), ''vad'' \<mapsto> VadModel]"]
  by simp

section \<open>The voice-change callback\<close>

text \<open>
  Claim C3. A standard participant asks for the voice \<open>i\<close> and no entry of the catalogue
  \<open>V\<close> has the identifier \<open>i\<close>. Then the session (voice, model and language of the
  adapter, and the flags) is unchanged, and the callback emits nothing but the info record
  of the request (line 128) and the warning of line 138; no utterance is scheduled. When
  \<open>i\<close> is not empty and every entry has an \<^verbatim>\<open>"id"\<close>, the callback returns normally and the
  warning is logged.
\<close>

theorem voice_not_found_keeps_configuration:
  assumes "kind p = PARTICIPANT_KIND_STANDARD"
    and "''voice'' \<in> dom changed_attributes"
    and "attributes p ''voice'' = Some i"
    and "\<forall>v\<in>set V. getitem v ''id'' \<noteq> Inr (JStr i)"
  shows "snd (snd (on_participant_attributes_changed (Json (JArr V)) changed_attributes p s)) = s
    \<and> set (fst (on_participant_attributes_changed (Json (JArr V)) changed_attributes p s))
        \<subseteq> {request_info p (Some i), Log WARNING (''Voice '' @ i @ '' not found'')}
    \<and> (i \<noteq> [] \<and> (\<forall>v\<in>set V. \<exists>x. getitem v ''id'' = Inr x) \<longrightarrow>
         on_participant_attributes_changed (Json (JArr V)) changed_attributes p s
         = ([request_info p (Some i), Log WARNING (''Voice '' @ i @ '' not found'')], None, s))"
proof -
  have nf: "\<And>vd. find_voice V i \<noteq> Inr (Some vd)"
    using find_voice_no_match [OF assms(4)] by simp
  have a: "snd (snd (on_participant_attributes_changed (Json (JArr V)) changed_attributes p s)) = s"
    using assms(1-3) nf
    by (cases "find_voice V i")
       (auto simp: on_participant_attributes_changed_def domIff Let_def split: option.splits)
  have b: "set (fst (on_participant_attributes_changed (Json (JArr V)) changed_attributes p s))
        \<subseteq> {request_info p (Some i), Log WARNING (''Voice '' @ i @ '' not found'')}"
    using assms(1-3) nf
    by (cases "find_voice V i")
       (auto simp: on_participant_attributes_changed_def domIff Let_def split: option.splits)
  have c: "i \<noteq> [] \<and> (\<forall>v\<in>set V. \<exists>x. getitem v ''id'' = Inr x) \<longrightarrow>
         on_participant_attributes_changed (Json (JArr V)) changed_attributes p s
         = ([request_info p (Some i), Log WARNING (''Voice '' @ i @ '' not found'')], None, s)"
    using assms(1-3) find_voice_none [OF assms(4)]
    by (auto simp: on_participant_attributes_changed_def domIff Let_def)
  from a b c show ?thesis by blast
qed

theorem voice_not_found_keeps_configuration_witness:
  "on_participant_attributes_changed (Json (JArr ex_catalogue)) [''voice'' \<mapsto> ''v9'']
     (ex_participant ''v9'') ex_session
   = ([Log INFO ''participant user-1 requested voice change: v9'',
       Log WARNING ''Voice v9 not found''], None, ex_session)"
proof -
  have h1: "kind (ex_participant ''v9'') = PARTICIPANT_KIND_STANDARD"
    by (simp add: ex_participant_def)
  have h2: "''voice'' \<in> dom [''voice'' \<mapsto> ''v9'']" by simp
  have h3: "attributes (ex_participant ''v9'') ''voice'' = Some ''v9''"
    by (simp add: ex_participant_def)
  have h4: "\<forall>v\<in>set ex_catalogue. getitem v ''id'' \<noteq> Inr (JStr ''v9'')"
    by (simp add: ex_catalogue_def)
  have h5: "''v9'' \<noteq> [] \<and> (\<forall>v\<in>set ex_catalogue. \<exists>x. getitem v ''id'' = Inr x)"
    by (simp add: ex_catalogue_def)
  from voice_not_found_keeps_configuration
         [where p = "ex_participant ''v9''" and changed_attributes = "[''voice'' \<mapsto> ''v9'']"
            and i = "''v9''" and V = ex_catalogue and s = ex_session, OF h1 h2 h3 h4] h5
  show ?thesis by (simp add: request_info_def ex_participant_def)
qed

text \<open>
  Claim C9. A standard participant's changed attributes contain \<^verbatim>\<open>"voice"\<close>, but the
  participant's current \<^verbatim>\<open>"voice"\<close> attribute is missing or the empty string. Then the
  callback returns normally after the info record of line 128 alone: no warning, the
  session unchanged, and this for every value of the catalogue, which is not consulted.
\<close>

theorem empty_voice_request_ignored:
  assumes "kind p = PARTICIPANT_KIND_STANDARD"
    and "''voice'' \<in> dom changed_attributes"
    and "attributes p ''voice'' = None \<or> attributes p ''voice'' = Some []"
  shows "on_participant_attributes_changed cartesia_voices changed_attributes p s
         = ([request_info p (attributes p ''voice'')], None, s)"
  using assms by (auto simp: on_participant_attributes_changed_def domIff Let_def)

theorem empty_voice_request_ignored_witness:
  "on_participant_attributes_changed VadModel [''voice'' \<mapsto> ''v1''] (ex_participant []) ex_session
   = ([Log INFO ''participant user-1 requested voice change: ''], None, ex_session)"
proof -
  have h1: "kind (ex_participant []) = PARTICIPANT_KIND_STANDARD"
    by (simp add: ex_participant_def)
  have h2: "''voice'' \<in> dom [''voice'' \<mapsto> ''v1'']" by simp
  have h3: "attributes (ex_participant []) ''voice'' = None
            \<or> attributes (ex_participant []) ''voice'' = Some []"
    by (simp add: ex_participant_def)
  from empty_voice_request_ignored
         [where p = "ex_participant []" and changed_attributes = "[''voice'' \<mapsto> ''v1'']"
            and cartesia_voices = VadModel and s = ex_session, OF h1 h2 h3]
  show ?thesis by (simp add: request_info_def ex_participant_def)
qed

text \<open>
  Claim C10. The requested identifier is found in the catalogue, and the entry found has
  no \<^verbatim>\<open>"embedding"\<close> field. Then the callback returns normally after the info record of
  line 128 alone: the adapter's voice, model and language are unchanged, no warning is
  logged and no confirmation is scheduled.
\<close>

theorem voice_without_embedding_no_action:
  assumes "kind p = PARTICIPANT_KIND_STANDARD"
    and "''voice'' \<in> dom changed_attributes"
    and "attributes p ''voice'' = Some i" and "i \<noteq> []"
    and "obj_iter cartesia_voices = Inr V"
    and "find_voice V i = Inr (Some voice_data)"
    and "map_of voice_data ''embedding'' = None"
  shows "on_participant_attributes_changed cartesia_voices changed_attributes p s
         = ([request_info p (Some i)], None, s)"
  using assms find_voice_Some [OF assms(6)]
  by (auto simp: on_participant_attributes_changed_def domIff Let_def)

theorem voice_without_embedding_no_action_witness:
  "on_participant_attributes_changed (Json (JArr ex_catalogue)) [''voice'' \<mapsto> ''v4'']
     (ex_participant ''v4'') ex_session
   = ([Log INFO ''participant user-1 requested voice change: v4''], None, ex_session)"
proof -
  have h1: "kind (ex_participant ''v4'') = PARTICIPANT_KIND_STANDARD"
    by (simp add: ex_participant_def)
  have h2: "''voice'' \<in> dom [''voice'' \<mapsto> ''v4'']" by simp
  have h3: "attributes (ex_participant ''v4'') ''voice'' = Some ''v4''"
    by (simp add: ex_participant_def)
  have h4: "''v4'' \<noteq> []" by simp
  have h5: "obj_iter (Json (JArr ex_catalogue)) = Inr ex_catalogue" by simp
  have h6: "find_voice ex_catalogue ''v4''
            = Inr (Some [(''id'', JStr ''v4''), (''name'', JStr ''Dee''), (''language'', JStr ''tl'')])"
    by (simp add: ex_catalogue_def)
  have h7: "map_of [(''id'', JStr ''v4''), (''name'', JStr ''Dee''), (''language'', JStr ''tl'')]
              ''embedding'' = None"
    by simp
  from voice_without_embedding_no_action
         [where p = "ex_participant ''v4''" and changed_attributes = "[''voice'' \<mapsto> ''v4'']"
            and s = ex_session, OF h1 h2 h3 h4 h5 h6 h7]
  show ?thesis by (simp add: request_info_def ex_participant_def)
qed

text \<open>
  Claim C2, as the code has it. The callback selects a voice entry that has an
  \<^verbatim>\<open>"embedding"\<close> field. Then it returns normally, the adapter's voice is the embedding, and:
  when the entry's \<^verbatim>\<open>"language"\<close> is absent or equal to \<^verbatim>\<open>"en"\<close>, the model is
  \<^verbatim>\<open>"sonic-english"\<close> and the language \<^verbatim>\<open>"en"\<close>; when it is present and not \<^verbatim>\<open>"en"\<close>, the
  model is \<^verbatim>\<open>"sonic-multilingual"\<close> and the language is that value. The claim states the
  second half for every entry with such a language; line 140 applies it only to entries
  with an embedding, and the counterexample below is an entry without one.
\<close>

theorem selected_voice_sets_model_and_language:
  assumes "kind p = PARTICIPANT_KIND_STANDARD"
    and "''voice'' \<in> dom changed_attributes"
    and "attributes p ''voice'' = Some i" and "i \<noteq> []"
    and "obj_iter cartesia_voices = Inr V"
    and "find_voice V i = Inr (Some voice_data)"
    and "map_of voice_data ''embedding'' = Some embedding"
  shows "fst (snd (on_participant_attributes_changed cartesia_voices changed_attributes p s)) = None
    \<and> tts_voice (snd (snd (on_participant_attributes_changed cartesia_voices changed_attributes p s)))
        = embedding
    \<and> (map_of voice_data ''language'' = None \<or> map_of voice_data ''language'' = Some (JStr ''en'')
         \<longrightarrow> tts_model (snd (snd (on_participant_attributes_changed cartesia_voices changed_attributes p s)))
               = ''sonic-english''
             \<and> tts_language (snd (snd (on_participant_attributes_changed cartesia_voices changed_attributes p s)))
               = JStr ''en'')
    \<and> (\<forall>l. map_of voice_data ''language'' = Some l \<and> l \<noteq> JStr ''en''
         \<longrightarrow> tts_model (snd (snd (on_participant_attributes_changed cartesia_voices changed_attributes p s)))
               = ''sonic-multilingual''
             \<and> tts_language (snd (snd (on_participant_attributes_changed cartesia_voices changed_attributes p s)))
               = l)"
  unfolding handler_applied [OF assms]
  by (auto simp: choose_model_def)

theorem selected_voice_sets_model_and_language_witness:
  "tts_model (snd (snd (on_participant_attributes_changed (Json (JArr ex_catalogue))
       [''voice'' \<mapsto> ''v1''] (ex_participant ''v1'') ex_session))) = ''sonic-multilingual''
   \<and> tts_language (snd (snd (on_participant_attributes_changed (Json (JArr ex_catalogue))
       [''voice'' \<mapsto> ''v1''] (ex_participant ''v1'') ex_session))) = JStr ''tl''
   \<and> tts_model (snd (snd (on_participant_attributes_changed (Json (JArr ex_catalogue))
       [''voice'' \<mapsto> ''v3''] (ex_participant ''v3'') ex_session))) = ''sonic-english''
   \<and> tts_language (snd (snd (on_participant_attributes_changed (Json (JArr ex_catalogue))
       [''voice'' \<mapsto> ''v3''] (ex_participant ''v3'') ex_session))) = JStr ''en''"
proof -
  have k1: "kind (ex_participant ''v1'') = PARTICIPANT_KIND_STANDARD"
    and k3: "kind (ex_participant ''v3'') = PARTICIPANT_KIND_STANDARD"
    by (simp_all add: ex_participant_def)
  have c1: "''voice'' \<in> dom [''voice'' \<mapsto> ''v1'']"
    and c3: "''voice'' \<in> dom [''voice'' \<mapsto> ''v3'']" by simp_all
  have a1: "attributes (ex_participant ''v1'') ''voice'' = Some ''v1''"
    and a3: "attributes (ex_participant ''v3'') ''voice'' = Some ''v3''"
    by (simp_all add: ex_participant_def)
  have n1: "''v1'' \<noteq> []" and n3: "''v3'' \<noteq> []" by simp_all
  have it: "obj_iter (Json (JArr ex_catalogue)) = Inr ex_catalogue" by simp
  have f1: "find_voice ex_catalogue ''v1''
            = Inr (Some [(''id'', JStr ''v1''), (''name'', JStr ''Bea''),
                         (''embedding'', JArr [JFloat 0.25 ''0.25'', JFloat (- 0.5) ''-0.5'']),
                         (''language'', JStr ''tl'')])"
    by (simp add: ex_catalogue_def)
  have f3: "find_voice ex_catalogue ''v3''
            = Inr (Some [(''id'', JStr ''v3''), (''name'', JStr ''Cy''),
                         (''embedding'', JArr [JFloat 0.125 ''0.125''])])"
    by (simp add: ex_catalogue_def)
  have e1: "map_of [(''id'', JStr ''v1''), (''name'', JStr ''Bea''),
                    (''embedding'', JArr [JFloat 0.25 ''0.25'', JFloat (- 0.5) ''-0.5'']),
                    (''language'', JStr ''tl'')] ''embedding''
            = Some (JArr [JFloat 0.25 ''0.25'', JFloat (- 0.5) ''-0.5''])" by simp
  have e3: "map_of [(''id'', JStr ''v3''), (''name'', JStr ''Cy''),
                    (''embedding'', JArr [JFloat 0.125 ''0.125''])] ''embedding''
            = Some (JArr [JFloat 0.125 ''0.125''])" by simp
  from selected_voice_sets_model_and_language [OF k1 c1 a1 n1 it f1 e1, of ex_session]
       selected_voice_sets_model_and_language [OF k3 c3 a3 n3 it f3 e3, of ex_session]
  show ?thesis by simp
qed

theorem multilingual_without_embedding_counterexample:
  "find_voice ex_catalogue ''v4''
     = Inr (Some [(''id'', JStr ''v4''), (''name'', JStr ''Dee''), (''language'', JStr ''tl'')])
   \<and> map_of [(''id'', JStr ''v4''), (''name'', JStr ''Dee''), (''language'', JStr ''tl'')] ''language''
     = Some (JStr ''tl'')
   \<and> JStr ''tl'' \<noteq> JStr ''en''
   \<and> tts_model (snd (snd (on_participant_attributes_changed (Json (JArr ex_catalogue))
        [''voice'' \<mapsto> ''v4''] (ex_participant ''v4'') ex_session))) \<noteq> ''sonic-multilingual''
   \<and> tts_language (snd (snd (on_participant_attributes_changed (Json (JArr ex_catalogue))
        [''voice'' \<mapsto> ''v4''] (ex_participant ''v4'') ex_session))) \<noteq> JStr ''tl''"
  by (simp add: on_participant_attributes_changed_def ex_catalogue_def ex_participant_def
        ex_session_def initial_session_def Let_def)

text \<open>
  Claim C5. The callback schedules an utterance exactly when a standard participant's
  request selects a voice entry with an embedding, which is applied to the adapter, and
  neither the user-speaking nor the agent-speaking flag is set at that moment; the
  utterance is then \<^verbatim>\<open>"How do I sound now?"\<close>. So none is scheduled while either flag is set.
\<close>

theorem confirmation_only_when_silent:
  "CreateTaskSay t b \<in> set (fst (on_participant_attributes_changed cartesia_voices changed_attributes p s))
   \<longleftrightarrow> t = ''How do I sound now?'' \<and> b
       \<and> \<not> is_user_speaking s \<and> \<not> is_agent_speaking s
       \<and> kind p = PARTICIPANT_KIND_STANDARD \<and> ''voice'' \<in> dom changed_attributes
       \<and> (\<exists>i V voice_data embedding.
             attributes p ''voice'' = Some i \<and> i \<noteq> [] \<and> obj_iter cartesia_voices = Inr V
             \<and> find_voice V i = Inr (Some voice_data)
             \<and> map_of voice_data ''embedding'' = Some embedding
             \<and> snd (snd (on_participant_attributes_changed cartesia_voices changed_attributes p s))
                 = s\<lparr>tts_voice := embedding,
                     tts_model := fst (choose_model voice_data),
                     tts_language := snd (choose_model voice_data)\<rparr>)"
  (is "?L \<longleftrightarrow> ?R")
proof
  assume R: ?R
  then obtain i V voice_data embedding where
    h: "kind p = PARTICIPANT_KIND_STANDARD" "''voice'' \<in> dom changed_attributes"
       "attributes p ''voice'' = Some i" "i \<noteq> []" "obj_iter cartesia_voices = Inr V"
       "find_voice V i = Inr (Some voice_data)" "map_of voice_data ''embedding'' = Some embedding"
    by blast
  from R show ?L unfolding handler_applied [OF h] by simp
next
  assume L: ?L
  then show ?R
    by (auto simp: on_participant_attributes_changed_def Let_def request_info_def domIff
             split: if_splits option.splits sum.splits)
qed

theorem confirmation_only_when_silent_witness:
  "CreateTaskSay ''How do I sound now?'' True
     \<in> set (fst (on_participant_attributes_changed (Json (JArr ex_catalogue))
          [''voice'' \<mapsto> ''v1''] (ex_participant ''v1'') ex_session))
   \<and> CreateTaskSay ''How do I sound now?'' True
     \<notin> set (fst (on_participant_attributes_changed (Json (JArr ex_catalogue))
          [''voice'' \<mapsto> ''v1''] (ex_participant ''v1'') (agent_started_speaking ex_session)))
   \<and> CreateTaskSay ''How do I sound now?'' True
     \<notin> set (fst (on_participant_attributes_changed (Json (JArr ex_catalogue))
          [''voice'' \<mapsto> ''v1''] (ex_participant ''v1'') (user_started_speaking ex_session)))"
  using confirmation_only_when_silent [of "''How do I sound now?''" True "Json (JArr ex_catalogue)"
          "[''voice'' \<mapsto> ''v1'']" "ex_participant ''v1''" ex_session]
        confirmation_only_when_silent [of "''How do I sound now?''" True "Json (JArr ex_catalogue)"
          "[''voice'' \<mapsto> ''v1'']" "ex_participant ''v1''" "agent_started_speaking ex_session"]
        confirmation_only_when_silent [of "''How do I sound now?''" True "Json (JArr ex_catalogue)"
          "[''voice'' \<mapsto> ''v1'']" "ex_participant ''v1''" "user_started_speaking ex_session"]
  by (simp add: ex_session_def initial_session_def agent_started_speaking_def
        user_started_speaking_def ex_participant_def ex_catalogue_def
        on_participant_attributes_changed_def Let_def choose_model_def)

section \<open>Properties of the sort\<close>

text \<open>
  Whatever the comparison, a list that \<open>list_sort\<close> returns holds the entries of its
  argument, each neighbour in order with the next (\<open>list_sort_generic\<close>). Where the
  comparison is that of a key into a linear order, \<open>list_sort\<close> raises nothing and returns
  the stable sort by that key (\<open>list_sort_linear\<close>).
\<close>

lemma bsearch_Nil [simp]: "bsearch lt p [] = Inr 0"
  by (simp add: bsearch.simps)

lemma bsearch_position:
  "bsearch lt p xs = Inr l \<Longrightarrow>
     l \<le> length xs
     \<and> (0 < l \<longrightarrow> lt p (xs ! (l - 1)) = Inr False)
     \<and> (l < length xs \<longrightarrow> lt p (xs ! l) = Inr True)"
proof (induction lt p xs arbitrary: l rule: bsearch.induct)
  case (1 lt pivot xs)
  let ?q = "length xs div 2"
  show ?case
  proof (cases "xs = []")
    case True
    with "1.prems" show ?thesis by simp
  next
    case False
    then have q: "?q < length xs" by simp
    show ?thesis
    proof (cases "lt pivot (xs ! ?q)")
      case (Inl e)
      with False "1.prems" show ?thesis by (simp add: bsearch.simps [of lt pivot xs])
    next
      case (Inr b)
      show ?thesis
      proof (cases b)
        case True
        with Inr False "1.prems" have r: "bsearch lt pivot (take ?q xs) = Inr l"
          by (simp add: bsearch.simps [of lt pivot xs])
        from "1.IH"(1) [of b l] False Inr True r
        have ih: "l \<le> length (take ?q xs)"
          "0 < l \<longrightarrow> lt pivot (take ?q xs ! (l - 1)) = Inr False"
          "l < length (take ?q xs) \<longrightarrow> lt pivot (take ?q xs ! l) = Inr True"
          by simp_all
        from ih(1) q have lq: "l \<le> ?q" by simp
        have a: "0 < l \<longrightarrow> lt pivot (xs ! (l - 1)) = Inr False"
          using ih(2) lq by auto
        have b: "l < length xs \<longrightarrow> lt pivot (xs ! l) = Inr True"
        proof (cases "l = ?q")
          case True
          with Inr \<open>b\<close> show ?thesis by simp
        next
          case False
          with lq have "l < ?q" by simp
          with ih(3) q show ?thesis by simp
        qed
        from lq q a b show ?thesis by simp
      next
        case False
        note nb = False
        with Inr \<open>xs \<noteq> []\<close> "1.prems" obtain l' where
          r: "bsearch lt pivot (drop (Suc ?q) xs) = Inr l'" and l: "l = Suc ?q + l'"
          by (auto simp: bsearch.simps [of lt pivot xs] split: sum.splits)
        from "1.IH"(2) [of b l'] \<open>xs \<noteq> []\<close> Inr nb r
        have ih: "l' \<le> length (drop (Suc ?q) xs)"
          "0 < l' \<longrightarrow> lt pivot (drop (Suc ?q) xs ! (l' - 1)) = Inr False"
          "l' < length (drop (Suc ?q) xs) \<longrightarrow> lt pivot (drop (Suc ?q) xs ! l') = Inr True"
          by simp_all
        from ih(1) q l have ll: "l \<le> length xs" by simp
        have a: "lt pivot (xs ! (l - 1)) = Inr False"
        proof (cases "l' = 0")
          case True
          with l Inr nb show ?thesis by simp
        next
          case False
          with ih(2) have "lt pivot (drop (Suc ?q) xs ! (l' - 1)) = Inr False" by simp
          moreover have "drop (Suc ?q) xs ! (l' - 1) = xs ! (l - 1)"
            using False l ih(1) by (simp add: add.commute)
          ultimately show ?thesis by simp
        qed
        have b: "l < length xs \<longrightarrow> lt pivot (xs ! l) = Inr True"
        proof
          assume "l < length xs"
          with l have "l' < length (drop (Suc ?q) xs)" by simp
          with ih(3) have "lt pivot (drop (Suc ?q) xs ! l') = Inr True" by simp
          moreover have "drop (Suc ?q) xs ! l' = xs ! l"
            using l \<open>l < length xs\<close> by (simp add: add.commute)
          ultimately show "lt pivot (xs ! l) = Inr True" by simp
        qed
        from ll a b show ?thesis by simp
      qed
    qed
  qed
qed






lemma bsearch_defined:
  "\<forall>y\<in>set s. \<exists>b. lt p y = Inr b \<Longrightarrow> \<exists>l. bsearch lt p s = Inr l"
proof (induction lt p s rule: bsearch.induct)
  case (1 lt pivot xs)
  let ?q = "length xs div 2"
  show ?case
  proof (cases "xs = []")
    case True
    then show ?thesis by simp
  next
    case False
    then have "xs ! ?q \<in> set xs" by simp
    with "1.prems" obtain b where b: "lt pivot (xs ! ?q) = Inr b" by blast
    have t: "\<forall>y\<in>set (take ?q xs). \<exists>b. lt pivot y = Inr b"
      using "1.prems" by (meson in_set_takeD)
    have d: "\<forall>y\<in>set (drop (Suc ?q) xs). \<exists>b. lt pivot y = Inr b"
      using "1.prems" by (meson in_set_dropD)
    show ?thesis
    proof (cases b)
      case True
      from "1.IH"(1) [of b] False b True t obtain l where "bsearch lt pivot (take ?q xs) = Inr l"
        by blast
      with False b True show ?thesis by (simp add: bsearch.simps [of lt pivot xs])
    next
      case nb: False
      from "1.IH"(2) [of b] False b nb d obtain l where
        "bsearch lt pivot (drop (Suc ?q) xs) = Inr l" by blast
      with False b nb show ?thesis by (simp add: bsearch.simps [of lt pivot xs])
    qed
  qed
qed

lemma insertion_point_linear:
  fixes k :: "'a \<Rightarrow> 'b::linorder"
  assumes "sorted (map k s)" and "bsearch lt p s = Inr l"
    and "\<forall>y\<in>set s. lt p y = Inr (k p < k y)"
  shows "l \<le> length s" and "\<forall>y\<in>set (take l s). k y \<le> k p" and "\<forall>y\<in>set (drop l s). k p < k y"
proof -
  from bsearch_position [OF assms(2)] have pos: "l \<le> length s"
    "0 < l \<longrightarrow> lt p (s ! (l - 1)) = Inr False" "l < length s \<longrightarrow> lt p (s ! l) = Inr True"
    by simp_all
  show "l \<le> length s" by (rule pos(1))
  show "\<forall>y\<in>set (take l s). k y \<le> k p"
  proof
    fix y assume "y \<in> set (take l s)"
    then obtain i where i: "i < l" "y = s ! i"
      using pos(1) by (auto simp: in_set_conv_nth)
    with pos have "s ! (l - 1) \<in> set s" "lt p (s ! (l - 1)) = Inr False" by simp_all
    with assms(3) have "\<not> k p < k (s ! (l - 1))" by auto
    moreover have "k (s ! i) \<le> k (s ! (l - 1))"
      using sorted_nth_mono [OF assms(1), of i "l - 1"] i pos(1) by simp
    ultimately show "k y \<le> k p" using i by simp
  qed
  show "\<forall>y\<in>set (drop l s). k p < k y"
  proof
    fix y assume "y \<in> set (drop l s)"
    then obtain j where j: "j < length s - l" "y = s ! (l + j)"
      by (auto simp: in_set_conv_nth)
    then have ll: "l < length s" by simp
    with pos have "s ! l \<in> set s" "lt p (s ! l) = Inr True" by simp_all
    with assms(3) have "k p < k (s ! l)" by auto
    moreover have "k (s ! l) \<le> k (s ! (l + j))"
      using sorted_nth_mono [OF assms(1), of l "l + j"] j by simp
    ultimately show "k p < k y" using j by simp
  qed
qed

lemma insertion_linear:
  fixes k :: "'a \<Rightarrow> 'b::linorder"
  assumes "sorted (map k s)" and "bsearch lt p s = Inr l"
    and "\<forall>y\<in>set s. lt p y = Inr (k p < k y)"
  shows "sorted (map k (take l s @ p # drop l s))"
    and "filter (\<lambda>x. k x = c) (take l s @ p # drop l s) = filter (\<lambda>x. k x = c) (s @ [p])"
proof -
  note ip = insertion_point_linear [OF assms]
  have st: "sorted (map k (take l s))" and sd: "sorted (map k (drop l s))"
    using assms(1) by (simp_all add: sorted_wrt_take sorted_wrt_drop sorted_map)
  have cross: "\<forall>x\<in>set (take l s). \<forall>y\<in>set (drop l s). k x \<le> k y"
    using ip(2,3) by fastforce
  show "sorted (map k (take l s @ p # drop l s))"
    using st sd ip(2,3) cross by (auto simp: sorted_append)
  have "filter (\<lambda>x. k x = c) s = filter (\<lambda>x. k x = c) (take l s) @ filter (\<lambda>x. k x = c) (drop l s)"
    by (metis append_take_drop_id filter_append)
  moreover have "k p = c \<Longrightarrow> filter (\<lambda>x. k x = c) (drop l s) = []"
    using ip(3) by (auto simp: filter_empty_conv)
  ultimately show "filter (\<lambda>x. k x = c) (take l s @ p # drop l s) = filter (\<lambda>x. k x = c) (s @ [p])"
    by auto
qed

lemma binarysort_linear:
  fixes k :: "'a \<Rightarrow> 'b::linorder"
  assumes "sorted (map k s)"
    and "\<forall>x\<in>set s \<union> set ps. \<forall>y\<in>set s \<union> set ps. lt x y = Inr (k x < k y)"
  shows "\<exists>L. binarysort lt s ps = Inr L \<and> sorted (map k L) \<and> mset L = mset (s @ ps)
           \<and> (\<forall>c. filter (\<lambda>x. k x = c) L = filter (\<lambda>x. k x = c) (s @ ps))"
  using assms
proof (induction ps arbitrary: s)
  case Nil
  then show ?case by simp
next
  case (Cons p ps)
  have kp: "\<forall>y\<in>set s. lt p y = Inr (k p < k y)" using Cons.prems(2) by simp
  then have "\<forall>y\<in>set s. \<exists>b. lt p y = Inr b" by blast
  from bsearch_defined [of s lt p] this obtain l where l: "bsearch lt p s = Inr l" by blast
  let ?s = "take l s @ p # drop l s"
  note ins = insertion_linear [OF Cons.prems(1) l kp]
  have sub: "set ?s \<union> set ps \<subseteq> set s \<union> set (p # ps)"
    by (auto dest: in_set_takeD in_set_dropD)
  have K: "\<forall>x\<in>set ?s \<union> set ps. \<forall>y\<in>set ?s \<union> set ps. lt x y = Inr (k x < k y)"
  proof (intro ballI)
    fix x y assume "x \<in> set ?s \<union> set ps" "y \<in> set ?s \<union> set ps"
    with sub have "x \<in> set s \<union> set (p # ps)" "y \<in> set s \<union> set (p # ps)" by blast+
    with Cons.prems(2) show "lt x y = Inr (k x < k y)" by blast
  qed
  from Cons.IH [OF ins(1) K] obtain L where
    L: "binarysort lt ?s ps = Inr L" "sorted (map k L)" "mset L = mset (?s @ ps)"
       "\<forall>c. filter (\<lambda>x. k x = c) L = filter (\<lambda>x. k x = c) (?s @ ps)"
    by blast
  have m: "mset ?s = mset s + {#p#}"
    by (simp flip: union_code) (metis append_take_drop_id mset_append)
  have "binarysort lt s (p # ps) = Inr L" using l L(1) by simp
  moreover have "mset L = mset (s @ p # ps)" using L(3) m by simp
  moreover have "\<forall>c. filter (\<lambda>x. k x = c) L = filter (\<lambda>x. k x = c) (s @ p # ps)"
  proof
    fix c
    have "filter (\<lambda>x. k x = c) L = filter (\<lambda>x. k x = c) ?s @ filter (\<lambda>x. k x = c) ps"
      using L(4) by (simp only: filter_append)
    also have "filter (\<lambda>x. k x = c) ?s = filter (\<lambda>x. k x = c) (s @ [p])"
      by (rule ins(2))
    finally show "filter (\<lambda>x. k x = c) L = filter (\<lambda>x. k x = c) (s @ p # ps)"
      by simp
  qed
  ultimately show ?case using L(2) by blast
qed

lemma run_ascending_linear:
  fixes k :: "'a \<Rightarrow> 'b::linorder"
  assumes "\<forall>x\<in>set (prev # xs). \<forall>y\<in>set (prev # xs). lt x y = Inr (k x < k y)"
  shows "\<exists>n. run_ascending lt prev xs = Inr n \<and> n \<le> length xs
             \<and> sorted (map k (prev # take n xs))"
  using assms
proof (induction xs arbitrary: prev)
  case Nil
  then show ?case by simp
next
  case (Cons x xs)
  have c: "lt x prev = Inr (k x < k prev)" using Cons.prems by simp
  show ?case
  proof (cases "k x < k prev")
    case True
    with c show ?thesis by simp
  next
    case False
    have "\<forall>u\<in>set (x # xs). \<forall>v\<in>set (x # xs). lt u v = Inr (k u < k v)"
      using Cons.prems by simp
    from Cons.IH [OF this] obtain n where
      n: "run_ascending lt x xs = Inr n" "n \<le> length xs" "sorted (map k (x # take n xs))"
      by blast
    from n(3) False have "sorted (map k (prev # take (Suc n) (x # xs)))" by auto
    with c False n(1,2) show ?thesis by simp
  qed
qed

lemma run_descending_linear:
  fixes k :: "'a \<Rightarrow> 'b::linorder"
  assumes "\<forall>x\<in>set (prev # xs). \<forall>y\<in>set (prev # xs). lt x y = Inr (k x < k y)"
  shows "\<exists>n. run_descending lt prev xs = Inr n \<and> n \<le> length xs
             \<and> sorted_wrt (\<lambda>a b. k b < k a) (prev # take n xs)"
  using assms
proof (induction xs arbitrary: prev)
  case Nil
  then show ?case by simp
next
  case (Cons x xs)
  have c: "lt x prev = Inr (k x < k prev)" using Cons.prems by simp
  show ?case
  proof (cases "k x < k prev")
    case False
    with c show ?thesis by simp
  next
    case True
    have "\<forall>u\<in>set (x # xs). \<forall>v\<in>set (x # xs). lt u v = Inr (k u < k v)"
      using Cons.prems by simp
    from Cons.IH [OF this] obtain n where
      n: "run_descending lt x xs = Inr n" "n \<le> length xs"
         "sorted_wrt (\<lambda>a b. k b < k a) (x # take n xs)"
      by blast
    from n(3) True have "sorted_wrt (\<lambda>a b. k b < k a) (prev # take (Suc n) (x # xs))"
      by auto
    with c True n(1,2) show ?thesis by simp
  qed
qed

lemma strictly_descending_filter:
  fixes k :: "'a \<Rightarrow> 'b::linorder"
  shows "sorted_wrt (\<lambda>a b. k b < k a) ys \<Longrightarrow> length (filter (\<lambda>x. k x = c) ys) \<le> 1"
  by (induction ys) (auto simp: filter_empty_conv)

lemma rev_short: "length zs \<le> 1 \<Longrightarrow> rev zs = zs"
  by (cases zs) auto

lemma strictly_descending_rev:
  fixes k :: "'a \<Rightarrow> 'b::linorder"
  assumes "sorted_wrt (\<lambda>a b. k b < k a) ys"
  shows "sorted (map k (rev ys))"
    and "filter (\<lambda>x. k x = c) (rev ys) = filter (\<lambda>x. k x = c) ys"
proof -
  from assms have "sorted_wrt (\<lambda>a b. k a < k b) (rev ys)" by (simp add: sorted_wrt_rev)
  then have "sorted_wrt (\<lambda>a b. k a \<le> k b) (rev ys)"
    by (rule sorted_wrt_mono_rel [rotated]) simp
  then show "sorted (map k (rev ys))" by (simp add: sorted_map)
  have "filter (\<lambda>x. k x = c) (rev ys) = rev (filter (\<lambda>x. k x = c) ys)" by (simp add: rev_filter)
  also have "\<dots> = filter (\<lambda>x. k x = c) ys"
    by (rule rev_short) (rule strictly_descending_filter [OF assms])
  finally show "filter (\<lambda>x. k x = c) (rev ys) = filter (\<lambda>x. k x = c) ys" .
qed

lemma list_sort_linear:
  fixes k :: "'a \<Rightarrow> 'b::linorder"
  assumes "\<forall>x\<in>set xs. \<forall>y\<in>set xs. lt x y = Inr (k x < k y)"
  shows "list_sort lt xs = Inr (sort_key k xs)"
proof (cases xs)
  case Nil
  then show ?thesis by (simp add: list_sort_def)
next
  case (Cons a ys)
  note xs = Cons
  show ?thesis
  proof (cases ys)
    case Nil
    with xs show ?thesis by (simp add: list_sort_def)
  next
    case (Cons b rest)
    with xs have x: "xs = a # b # rest" by simp
    have c: "lt b a = Inr (k b < k a)" using assms x by simp
    have Kr: "\<forall>u\<in>set (b # rest). \<forall>v\<in>set (b # rest). lt u v = Inr (k u < k v)"
      using assms x by simp
    have final: "list_sort lt xs = Inr (sort_key k xs)"
      if s: "list_sort lt xs = binarysort lt pre (drop m xs)"
        and pre: "sorted (map k pre)" "mset pre = mset (take m xs)"
          "\<forall>c. filter (\<lambda>x. k x = c) pre = filter (\<lambda>x. k x = c) (take m xs)"
      for pre m
    proof -
      have "set pre = set (take m xs)" using pre(2) by (rule mset_eq_setD)
      then have "set pre \<union> set (drop m xs) \<subseteq> set xs"
        by (auto dest: in_set_takeD in_set_dropD)
      with assms have K: "\<forall>u\<in>set pre \<union> set (drop m xs). \<forall>v\<in>set pre \<union> set (drop m xs).
                            lt u v = Inr (k u < k v)"
        by (meson subsetD)
      from binarysort_linear [OF pre(1) K] obtain L where
        L: "binarysort lt pre (drop m xs) = Inr L" "sorted (map k L)"
           "mset L = mset (pre @ drop m xs)"
           "\<forall>c. filter (\<lambda>x. k x = c) L = filter (\<lambda>x. k x = c) (pre @ drop m xs)"
        by blast
      have m: "mset L = mset xs"
        using L(3) pre(2) by (metis append_take_drop_id mset_append)
      have f: "filter (\<lambda>x. k x = c) L = filter (\<lambda>x. k x = c) xs" for c
      proof -
        have "filter (\<lambda>x. k x = c) L
              = filter (\<lambda>x. k x = c) pre @ filter (\<lambda>x. k x = c) (drop m xs)"
          using L(4) by (simp only: filter_append)
        also have "\<dots> = filter (\<lambda>x. k x = c) (take m xs) @ filter (\<lambda>x. k x = c) (drop m xs)"
          using pre(3) by simp
        also have "\<dots> = filter (\<lambda>x. k x = c) xs"
          by (metis append_take_drop_id filter_append)
        finally show ?thesis .
      qed
      have "sort_key k xs = L"
      proof (rule properties_for_sort_key)
        show "mset L = mset xs" by (rule m)
        show "sorted (map k L)" by (rule L(2))
        show "filter (\<lambda>x. k u = k x) L = filter (\<lambda>x. k u = k x) xs" for u
          using f [of "k u"] by (simp add: eq_commute)
      qed
      with s L(1) show ?thesis by simp
    qed
    show ?thesis
    proof (cases "k b < k a")
      case True
      from run_descending_linear [OF Kr] obtain n where
        n: "run_descending lt b rest = Inr n" "n \<le> length rest"
           "sorted_wrt (\<lambda>u v. k v < k u) (b # take n rest)"
        by blast
      have t: "take (2 + n) xs = a # b # take n rest" using x by simp
      from n(3) True have d: "sorted_wrt (\<lambda>u v. k v < k u) (take (2 + n) xs)"
        unfolding t by auto
      have s: "list_sort lt xs = binarysort lt (rev (take (2 + n) xs)) (drop (2 + n) xs)"
        using x c True n(1) by (simp add: list_sort_def)
      show ?thesis
      proof (rule final [OF s])
        show "sorted (map k (rev (take (2 + n) xs)))"
          by (rule strictly_descending_rev(1) [OF d])
        show "mset (rev (take (2 + n) xs)) = mset (take (2 + n) xs)" by simp
        show "\<forall>c. filter (\<lambda>x. k x = c) (rev (take (2 + n) xs))
                  = filter (\<lambda>x. k x = c) (take (2 + n) xs)"
          using strictly_descending_rev(2) [OF d] by blast
      qed
    next
      case False
      from run_ascending_linear [OF Kr] obtain n where
        n: "run_ascending lt b rest = Inr n" "n \<le> length rest"
           "sorted (map k (b # take n rest))"
        by blast
      have t: "take (2 + n) xs = a # b # take n rest" using x by simp
      from n(3) False have d: "sorted (map k (take (2 + n) xs))"
        unfolding t by auto
      have s: "list_sort lt xs = binarysort lt (take (2 + n) xs) (drop (2 + n) xs)"
        using x c False n(1) by (simp add: list_sort_def)
      show ?thesis
      proof (rule final [OF s])
        show "sorted (map k (take (2 + n) xs))" by (rule d)
      qed simp_all
    qed
  qed
qed

section \<open>The session set-up\<close>

subsection \<open>Auxiliary facts\<close>

lemma collect_map_Inr: "collect (map Inr xs) = Inr xs"
  by (induction xs) simp_all

lemma py_join_strs: "py_join sep (map JStr names) = Inr (join_str sep names)"
  by (simp add: py_join_def list_all_iff comp_def)

lemma service_names_of_named:
  assumes "map (\<lambda>service. getitem service ''name'') services = map (\<lambda>n. Inr (JStr n)) names"
  shows "service_names_of (JArr services) = Inr (join_str '', '' names)"
proof -
  have "map (\<lambda>service. getitem service ''name'') services = map Inr (map JStr names)"
    using assms by simp
  then have "collect (map (\<lambda>service. getitem service ''name'') services) = Inr (map JStr names)"
    by (simp only: collect_map_Inr)
  then show ?thesis by (simp add: service_names_of_def py_join_strs)
qed

lemma entrypoint_first_effect:
  assumes "ud ''cartesia_voices'' = Some cv" and "ud ''vad'' = Some vad"
    and "first_greeting (case ud ''knowledge_base'' of None \<Rightarrow> Json (JObj []) | Some v \<Rightarrow> v) = Inr text"
  shows "take 1 (fst (entrypoint dm dl ud)) = [Say text True]"
  using assms
  by (cases "voices_attribute cv") (simp_all add: entrypoint_def read_userdata_def Let_def)

lemma first_greeting_falsy: "\<not> obj_truthy kb \<Longrightarrow> first_greeting kb = Inr generic_greeting"
  by (simp add: first_greeting_def)

lemma entrypoint_reaches_start:
  assumes "ud ''cartesia_voices'' = Some cv" and "ud ''vad'' = Some vad"
    and "first_greeting (case ud ''knowledge_base'' of None \<Rightarrow> Json (JObj []) | Some v \<Rightarrow> v) = Inr text"
    and "voices_attribute cv = Inr voices_json"
  shows "entrypoint dm dl ud =
           ([Say text True, RoomOn ''participant_attributes_changed'', Connect,
             AgentOn ''agent_started_speaking'', AgentOn ''agent_stopped_speaking'',
             AgentOn ''user_started_speaking'', AgentOn ''user_stopped_speaking'',
             SetAttributes [(''voices'', voices_json)], Start, Say generic_greeting True],
            Inr (initial_session dm dl))"
  using assms by (simp add: entrypoint_def read_userdata_def Let_def)

lemma entrypoint_start_only_at_end:
  assumes "Start \<in> set (fst (entrypoint dm dl ud))"
  shows "\<exists>cv vad text voices_json.
           ud ''cartesia_voices'' = Some cv \<and> ud ''vad'' = Some vad
           \<and> first_greeting (case ud ''knowledge_base'' of None \<Rightarrow> Json (JObj []) | Some v \<Rightarrow> v) = Inr text
           \<and> voices_attribute cv = Inr voices_json"
proof (cases "ud ''cartesia_voices''")
  case None
  with assms show ?thesis by (simp add: entrypoint_def read_userdata_def)
next
  case (Some cv)
  note cv = Some
  show ?thesis
  proof (cases "ud ''vad''")
    case None
    with assms cv show ?thesis by (simp add: entrypoint_def read_userdata_def)
  next
    case (Some vad)
    note vad = Some
    show ?thesis
    proof (cases "first_greeting (case ud ''knowledge_base'' of None \<Rightarrow> Json (JObj []) | Some v \<Rightarrow> v)")
      case (Inl e)
      with assms cv vad show ?thesis by (simp add: entrypoint_def read_userdata_def)
    next
      case (Inr greeting)
      note greeting = Inr
      show ?thesis
      proof (cases "voices_attribute cv")
        case (Inl e)
        with assms cv vad greeting show ?thesis by (simp add: entrypoint_def read_userdata_def Let_def)
      next
        case (Inr voices_json)
        with cv vad greeting show ?thesis by simp
      qed
    qed
  qed
qed


lemma py_lt_strings:
  "is_JStr a \<Longrightarrow> is_JStr b \<Longrightarrow> py_lt a b = Inr (str_of a < str_of b)"
  by (cases a; cases b) simp_all



lemma sort_by_name_linear:
  fixes k :: "json \<Rightarrow> 'b::linorder"
  assumes "\<forall>u\<in>set R. \<forall>v\<in>set R. py_lt (snd u) (snd v) = Inr (k (snd u) < k (snd v))"
  shows "sort_by_name R = Inr (sort_key (\<lambda>v. k (snd v)) R)"
  unfolding sort_by_name_def
  by (rule list_sort_linear) (use assms in simp)

lemma sort_by_name_strings:
  assumes "\<forall>v\<in>set R. is_JStr (snd v)"
  shows "sort_by_name R = Inr (sort_key (\<lambda>v. str_of (snd v)) R)"
  by (rule sort_by_name_linear) (use assms in \<open>simp add: py_lt_strings\<close>)


lemma voices_attribute_strings:
  assumes "map reduce_voice V = map Inr R" and "\<forall>v\<in>set R. is_JStr (snd v)"
  shows "voices_attribute (Json (JArr V))
         = Inr (json_dumps (JArr (map reduced_json (sort_key (\<lambda>v. str_of (snd v)) R))))"
  by (simp add: voices_attribute_def assms(1) collect_map_Inr sort_by_name_strings [OF assms(2)])



text \<open>The example catalogue as it is published, and the two example greetings.\<close>

lemma ex_voices_attribute:
  \<open>voices_attribute (Json (JArr ex_catalogue))
   = Inr ''[{"id": "v2", "name": "Al"}, {"id": "v1", "name": "Bea"}, {"id": "v3", "name": "Cy"}, {"id": "v4", "name": "Dee"}]''\<close>
  by (simp add: voices_attribute_def ex_catalogue_def reduce_voice_def sort_by_name_def
        list_sort_def bsearch.simps reduced_json_def dumps_str_def escape_char_def)

text \<open>
  Names that are numbers are sorted by value; names of different kinds, or two names that
  are \<^verbatim>\<open>None\<close>, end the session with \<^verbatim>\<open>TypeError\<close>; a single entry is published as it is,
  whatever its name.
\<close>

lemma ex_number_names:
  \<open>voices_attribute (Json (JArr [JObj [(''id'', JStr ''a''), (''name'', JInt 2)],
                                    JObj [(''id'', JStr ''b''), (''name'', JFloat 1.5 ''1.5'')],
                                    JObj [(''id'', JStr ''c''), (''name'', JInt 1)]]))
   = Inr ''[{"id": "c", "name": 1}, {"id": "b", "name": 1.5}, {"id": "a", "name": 2}]''\<close>
  by (simp add: voices_attribute_def reduce_voice_def sort_by_name_def list_sort_def bsearch.simps
        reduced_json_def dumps_str_def escape_char_def str_int_def digits.simps)

lemma ex_mixed_names:
  "voices_attribute (Json (JArr [JObj [(''id'', JStr ''a''), (''name'', JInt 2)],
                                 JObj [(''id'', JStr ''b''), (''name'', JStr ''Al'')]]))
   = Inl TypeError"
  "voices_attribute (Json (JArr [JObj [(''id'', JStr ''a''), (''name'', JNull)],
                                 JObj [(''id'', JStr ''b''), (''name'', JNull)]]))
   = Inl TypeError"
  by (simp_all add: voices_attribute_def reduce_voice_def sort_by_name_def list_sort_def)

lemma ex_single_null_name:
  \<open>voices_attribute (Json (JArr [JObj [(''id'', JStr ''a''), (''name'', JNull)]]))
   = Inr ''[{"id": "a", "name": null}]''\<close>
  by (simp add: voices_attribute_def reduce_voice_def sort_by_name_def list_sort_def
        reduced_json_def dumps_str_def escape_char_def)

lemma ex_first_greetings:
  "first_greeting (case ex_userdata ''knowledge_base'' of None \<Rightarrow> Json (JObj []) | Some v \<Rightarrow> v)
   = Inr (services_greeting ''Automation, Chatbots'')"
  "first_greeting (case ex_userdata_no_kb ''knowledge_base'' of None \<Rightarrow> Json (JObj []) | Some v \<Rightarrow> v)
   = Inr generic_greeting"
  by (simp_all add: ex_userdata_def ex_userdata_no_kb_def ex_knowledge_base_def first_greeting_def
        service_names_of_def py_join_def)

subsection \<open>The first greeting\<close>

text \<open>
  Claim C4. The session has its catalogue and its detection model. If the knowledge base
  is absent from the user data (the fetch failed) or is a false value (empty), the first
  thing the session does is to speak the fixed generic greeting, exactly. If it is a
  non-empty dict whose \<^verbatim>\<open>services\<close> list has entries with the names \<open>names\<close> (strings, in
  the order of the list), the first thing it does is to speak the services greeting, which
  contains the names joined by \<^verbatim>\<open>", "\<close> in that order.
\<close>

theorem first_greeting_text:
  assumes "ud ''cartesia_voices'' = Some cv" and "ud ''vad'' = Some vad"
  shows "((ud ''knowledge_base'' = None \<or> (\<exists>kb. ud ''knowledge_base'' = Some kb \<and> \<not> obj_truthy kb))
           \<longrightarrow> take 1 (fst (entrypoint dm dl ud)) = [Say generic_greeting True])
    \<and> (\<forall>kvs services names.
          ud ''knowledge_base'' = Some (Json (JObj kvs)) \<and> kvs \<noteq> []
          \<and> (case map_of kvs ''services'' of None \<Rightarrow> JArr [] | Some v \<Rightarrow> v) = JArr services
          \<and> map (\<lambda>service. getitem service ''name'') services = map (\<lambda>n. Inr (JStr n)) names
          \<longrightarrow> take 1 (fst (entrypoint dm dl ud))
              = [Say (''Hi there! I'm Alex, your Aitek PH assistant. Here to help you with services like ''
                      @ join_str '', '' names @ ''. How can I assist you today?'') True])"
proof (intro conjI allI impI)
  assume "ud ''knowledge_base'' = None \<or> (\<exists>kb. ud ''knowledge_base'' = Some kb \<and> \<not> obj_truthy kb)"
  then have "first_greeting (case ud ''knowledge_base'' of None \<Rightarrow> Json (JObj []) | Some v \<Rightarrow> v)
             = Inr generic_greeting"
    by (auto simp: first_greeting_falsy)
  from entrypoint_first_effect [OF assms this]
  show "take 1 (fst (entrypoint dm dl ud)) = [Say generic_greeting True]" .
next
  fix kvs services names
  assume h: "ud ''knowledge_base'' = Some (Json (JObj kvs)) \<and> kvs \<noteq> []
          \<and> (case map_of kvs ''services'' of None \<Rightarrow> JArr [] | Some v \<Rightarrow> v) = JArr services
          \<and> map (\<lambda>service. getitem service ''name'') services = map (\<lambda>n. Inr (JStr n)) names"
  then have nm: "map (\<lambda>service. getitem service ''name'') services = map (\<lambda>n. Inr (JStr n)) names"
    by simp
  have "first_greeting (Json (JObj kvs)) = Inr (services_greeting (join_str '', '' names))"
    using h service_names_of_named [OF nm] by (simp add: first_greeting_def)
  then have "first_greeting (case ud ''knowledge_base'' of None \<Rightarrow> Json (JObj []) | Some v \<Rightarrow> v)
             = Inr (services_greeting (join_str '', '' names))"
    using h by simp
  from entrypoint_first_effect [OF assms this]
  show "take 1 (fst (entrypoint dm dl ud))
              = [Say (''Hi there! I'm Alex, your Aitek PH assistant. Here to help you with services like ''
                      @ join_str '', '' names @ ''. How can I assist you today?'') True]"
    by (simp add: services_greeting_def)
qed

theorem first_greeting_text_witness:
  "take 1 (fst (entrypoint ''sonic-english'' (JStr ''en'') ex_userdata_no_kb))
     = [Say ''Hi there, how are you doing today?'' True]
   \<and> take 1 (fst (entrypoint ''sonic-english'' (JStr ''en'') ex_userdata))
     = [Say (''Hi there! I'm Alex, your Aitek PH assistant. Here to help you with services like ''
             @ ''Automation, Chatbots'' @ ''. How can I assist you today?'') True]"
proof -
  have v0: "ex_userdata_no_kb ''cartesia_voices'' = Some (Json (JArr ex_catalogue))"
    and d0: "ex_userdata_no_kb ''vad'' = Some VadModel"
    and k0: "ex_userdata_no_kb ''knowledge_base'' = None
             \<or> (\<exists>kb. ex_userdata_no_kb ''knowledge_base'' = Some kb \<and> \<not> obj_truthy kb)"
    by (simp_all add: ex_userdata_no_kb_def)
  have v1: "ex_userdata ''cartesia_voices'' = Some (Json (JArr ex_catalogue))"
    and d1: "ex_userdata ''vad'' = Some VadModel"
    by (simp_all add: ex_userdata_def)
  have k1: "ex_userdata ''knowledge_base''
              = Some (Json (JObj [(''company'', JStr ''Aitek PH''),
                   (''services'', JArr [JObj [(''name'', JStr ''Automation''), (''price'', JInt 100)],
                                        JObj [(''name'', JStr ''Chatbots'')]])]))
            \<and> [(''company'', JStr ''Aitek PH''),
                (''services'', JArr [JObj [(''name'', JStr ''Automation''), (''price'', JInt 100)],
                                     JObj [(''name'', JStr ''Chatbots'')]])] \<noteq> []
            \<and> (case map_of [(''company'', JStr ''Aitek PH''),
                   (''services'', JArr [JObj [(''name'', JStr ''Automation''), (''price'', JInt 100)],
                                        JObj [(''name'', JStr ''Chatbots'')]])] ''services'' of
                  None \<Rightarrow> JArr [] | Some v \<Rightarrow> v)
                = JArr [JObj [(''name'', JStr ''Automation''), (''price'', JInt 100)],
                        JObj [(''name'', JStr ''Chatbots'')]]
            \<and> map (\<lambda>service. getitem service ''name'')
                  [JObj [(''name'', JStr ''Automation''), (''price'', JInt 100)],
                   JObj [(''name'', JStr ''Chatbots'')]]
                = map (\<lambda>n. Inr (JStr n)) [''Automation'', ''Chatbots'']"
    by (simp add: ex_userdata_def ex_knowledge_base_def)
  note g = first_greeting_text [OF v0 d0, of "''sonic-english''" "JStr ''en''", THEN conjunct1, rule_format, OF k0]
  note s = first_greeting_text [OF v1 d1, of "''sonic-english''" "JStr ''en''", THEN conjunct2, rule_format, OF k1]
  from g s show ?thesis by (simp add: generic_greeting_def)
qed

subsection \<open>The published voice list\<close>



subsection \<open>The second greeting\<close>

text \<open>
  Claim C8. Whenever a session starts the agent against the room, what it does is: the
  first greeting, whatever its text (services or generic), the registrations, the
  connection, the published attribute, the start of the agent, and last the fixed generic
  greeting.
\<close>

theorem second_greeting_unconditional:
  "Start \<in> set (fst (entrypoint dm dl ud)) \<longrightarrow>
     (\<exists>text voices_json.
        first_greeting (case ud ''knowledge_base'' of None \<Rightarrow> Json (JObj []) | Some v \<Rightarrow> v) = Inr text
        \<and> fst (entrypoint dm dl ud) =
           [Say text True, RoomOn ''participant_attributes_changed'', Connect,
            AgentOn ''agent_started_speaking'', AgentOn ''agent_stopped_speaking'',
            AgentOn ''user_started_speaking'', AgentOn ''user_stopped_speaking'',
            SetAttributes [(''voices'', voices_json)], Start, Say generic_greeting True])"
proof
  assume "Start \<in> set (fst (entrypoint dm dl ud))"
  from entrypoint_start_only_at_end [OF this] obtain cv vad greeting voices_json where
    h: "ud ''cartesia_voices'' = Some cv" "ud ''vad'' = Some vad"
       "first_greeting (case ud ''knowledge_base'' of None \<Rightarrow> Json (JObj []) | Some v \<Rightarrow> v) = Inr greeting"
       "voices_attribute cv = Inr voices_json"
    by blast
  from entrypoint_reaches_start [OF h, of dm dl] h(3) show
    "\<exists>text voices_json.
        first_greeting (case ud ''knowledge_base'' of None \<Rightarrow> Json (JObj []) | Some v \<Rightarrow> v) = Inr text
        \<and> fst (entrypoint dm dl ud) =
           [Say text True, RoomOn ''participant_attributes_changed'', Connect,
            AgentOn ''agent_started_speaking'', AgentOn ''agent_stopped_speaking'',
            AgentOn ''user_started_speaking'', AgentOn ''user_stopped_speaking'',
            SetAttributes [(''voices'', voices_json)], Start, Say generic_greeting True]"
    by simp
qed

theorem second_greeting_unconditional_witness:
  "Start \<in> set (fst (entrypoint ''sonic-english'' (JStr ''en'') ex_userdata))
   \<and> take 1 (fst (entrypoint ''sonic-english'' (JStr ''en'') ex_userdata))
       = [Say (services_greeting ''Automation, Chatbots'') True]
   \<and> last (fst (entrypoint ''sonic-english'' (JStr ''en'') ex_userdata))
       = Say ''Hi there, how are you doing today?'' True
   \<and> Start \<in> set (fst (entrypoint ''sonic-english'' (JStr ''en'') ex_userdata_no_kb))
   \<and> take 1 (fst (entrypoint ''sonic-english'' (JStr ''en'') ex_userdata_no_kb))
       = [Say ''Hi there, how are you doing today?'' True]
   \<and> last (fst (entrypoint ''sonic-english'' (JStr ''en'') ex_userdata_no_kb))
       = Say ''Hi there, how are you doing today?'' True"
proof -
  have v1: "ex_userdata ''cartesia_voices'' = Some (Json (JArr ex_catalogue))"
    and d1: "ex_userdata ''vad'' = Some VadModel"
    by (simp_all add: ex_userdata_def)
  have v0: "ex_userdata_no_kb ''cartesia_voices'' = Some (Json (JArr ex_catalogue))"
    and d0: "ex_userdata_no_kb ''vad'' = Some VadModel"
    by (simp_all add: ex_userdata_no_kb_def)
  have s1: "Start \<in> set (fst (entrypoint ''sonic-english'' (JStr ''en'') ex_userdata))"
    by (simp add: entrypoint_reaches_start [OF v1 d1 ex_first_greetings(1) ex_voices_attribute])
  have s0: "Start \<in> set (fst (entrypoint ''sonic-english'' (JStr ''en'') ex_userdata_no_kb))"
    by (simp add: entrypoint_reaches_start [OF v0 d0 ex_first_greetings(2) ex_voices_attribute])
  from second_greeting_unconditional [of "''sonic-english''" "JStr ''en''" ex_userdata] s1
  obtain t1 j1 where
    e1: "first_greeting (case ex_userdata ''knowledge_base'' of None \<Rightarrow> Json (JObj []) | Some v \<Rightarrow> v) = Inr t1"
      "fst (entrypoint ''sonic-english'' (JStr ''en'') ex_userdata) =
         [Say t1 True, RoomOn ''participant_attributes_changed'', Connect,
          AgentOn ''agent_started_speaking'', AgentOn ''agent_stopped_speaking'',
          AgentOn ''user_started_speaking'', AgentOn ''user_stopped_speaking'',
          SetAttributes [(''voices'', j1)], Start, Say generic_greeting True]"
    by blast
  from second_greeting_unconditional [of "''sonic-english''" "JStr ''en''" ex_userdata_no_kb] s0
  obtain t0 j0 where
    e0: "first_greeting (case ex_userdata_no_kb ''knowledge_base'' of None \<Rightarrow> Json (JObj []) | Some v \<Rightarrow> v) = Inr t0"
      "fst (entrypoint ''sonic-english'' (JStr ''en'') ex_userdata_no_kb) =
         [Say t0 True, RoomOn ''participant_attributes_changed'', Connect,
          AgentOn ''agent_started_speaking'', AgentOn ''agent_stopped_speaking'',
          AgentOn ''user_started_speaking'', AgentOn ''user_stopped_speaking'',
          SetAttributes [(''voices'', j0)], Start, Say generic_greeting True]"
    by blast
  from e1(1) ex_first_greetings(1) have t1: "t1 = services_greeting ''Automation, Chatbots''" by simp
  from e0(1) ex_first_greetings(2) have t0: "t0 = generic_greeting" by simp
  show ?thesis
    unfolding e1(2) e0(2) t1 t0 by (simp add: generic_greeting_def)
qed

section \<open>The outcomes of the two fetches\<close>

lemma fetch_voices_ok:
  assumes "requests_get env voices_url (voices_headers env) = Inr r"
    and "status_code r = 200" and "response_json r = Inr j"
  shows "fetch_voices env ud = ([], None, ud(''cartesia_voices'' \<mapsto> Json j))"
  using assms by (simp add: fetch_voices_def)

lemma fetch_voices_not_ok:
  assumes "requests_get env voices_url (voices_headers env) = Inr r"
    and "status_code r \<noteq> 200"
  shows "fetch_voices env ud
         = ([Log WARNING (''Failed to fetch Cartesia voices: '' @ str_int (status_code r))], None, ud)"
  using assms by (simp add: fetch_voices_def)

lemma load_knowledge_base_ok:
  assumes "kb_attempt env = Inr j"
  shows "load_knowledge_base env ud
         = ([Log INFO ''Knowledge base loaded successfully.''], None, ud(''knowledge_base'' \<mapsto> Json j))"
  using assms by (simp add: load_knowledge_base_def)

lemma load_knowledge_base_failed:
  assumes "kb_attempt env = Inl (RequestException msg)"
  shows "load_knowledge_base env ud
         = ([Log WARNING (''Failed to load knowledge base: '' @ msg)], None, ud)"
  using assms by (simp add: load_knowledge_base_def)

lemma kb_attempt_Inr:
  "kb_attempt env = Inr j \<longleftrightarrow>
     (\<exists>r. requests_get env knowledge_base_url [] = Inr r \<and> raise_for_status r = None
          \<and> response_json r = Inr j)"
  by (auto simp: kb_attempt_def split: sum.splits option.splits)

lemma kb_attempt_Inl:
  "kb_attempt env = Inl e \<longleftrightarrow>
     requests_get env knowledge_base_url [] = Inl e
     \<or> (\<exists>r. requests_get env knowledge_base_url [] = Inr r
            \<and> (raise_for_status r = Some e \<or> raise_for_status r = None \<and> response_json r = Inl e))"
  by (auto simp: kb_attempt_def split: sum.splits option.splits)

lemma str_int_503: "str_int 503 = ''503''"
  by (simp add: str_int_def digits.simps)

text \<open>
  Claim C7. The detection model loads and the catalogue request returns a response \<open>r\<close>.
  If its status is 200 and its body decodes to \<open>j\<close>, \<open>j\<close> is stored under
  \<^verbatim>\<open>"cartesia_voices"\<close> and no catalogue warning is logged; on any other status that key is
  left as it was and the warning with the status is logged. Where the catalogue step did
  not raise: if the three calls of the knowledge-base \<^verbatim>\<open>try\<close> block succeed with \<open>k\<close>, \<open>k\<close> is
  stored under \<^verbatim>\<open>"knowledge_base"\<close> without a warning; if one of them raises a
  \<^verbatim>\<open>RequestException\<close>, the key is left as it was and the warning with the exception's text
  is logged. In both cases \<^verbatim>\<open>prewarm\<close> returns normally.
\<close>

theorem prewarm_fetch_outcomes:
  assumes "vad_load env = None"
    and "requests_get env voices_url (voices_headers env) = Inr r"
  shows "(status_code r = 200 \<longrightarrow>
            (\<forall>j. response_json r = Inr j \<longrightarrow>
               snd (snd (prewarm env ud)) ''cartesia_voices'' = Some (Json j)
               \<and> (\<forall>m. Log WARNING (''Failed to fetch Cartesia voices: '' @ m) \<notin> set (fst (prewarm env ud)))))
    \<and> (status_code r \<noteq> 200 \<longrightarrow>
            snd (snd (prewarm env ud)) ''cartesia_voices'' = ud ''cartesia_voices''
            \<and> Log WARNING (''Failed to fetch Cartesia voices: '' @ str_int (status_code r))
                \<in> set (fst (prewarm env ud)))
    \<and> (status_code r \<noteq> 200 \<or> (\<exists>j. response_json r = Inr j) \<longrightarrow>
            (\<forall>k. kb_attempt env = Inr k \<longrightarrow>
               fst (snd (prewarm env ud)) = None
               \<and> snd (snd (prewarm env ud)) ''knowledge_base'' = Some (Json k)
               \<and> (\<forall>m. Log WARNING (''Failed to load knowledge base: '' @ m) \<notin> set (fst (prewarm env ud))))
          \<and> (\<forall>msg. kb_attempt env = Inl (RequestException msg) \<longrightarrow>
               fst (snd (prewarm env ud)) = None
               \<and> snd (snd (prewarm env ud)) ''knowledge_base'' = ud ''knowledge_base''
               \<and> Log WARNING (''Failed to load knowledge base: '' @ msg) \<in> set (fst (prewarm env ud))))"
proof -
  let ?ud1 = "ud(''vad'' \<mapsto> VadModel)"
  have ok: "prewarm env ud =
              (fst (load_knowledge_base env (?ud1(''cartesia_voices'' \<mapsto> Json j))),
               fst (snd (load_knowledge_base env (?ud1(''cartesia_voices'' \<mapsto> Json j)))),
               snd (snd (load_knowledge_base env (?ud1(''cartesia_voices'' \<mapsto> Json j)))))"
    if "status_code r = 200" "response_json r = Inr j" for j
    using assms(1) fetch_voices_ok [OF assms(2) that, of ?ud1]
    by (simp add: prewarm_def split: prod.splits)
  have nok: "prewarm env ud =
              (Log WARNING (''Failed to fetch Cartesia voices: '' @ str_int (status_code r))
                 # fst (load_knowledge_base env ?ud1),
               fst (snd (load_knowledge_base env ?ud1)),
               snd (snd (load_knowledge_base env ?ud1)))"
    if "status_code r \<noteq> 200"
    using assms(1) fetch_voices_not_ok [OF assms(2) that, of ?ud1]
    by (simp add: prewarm_def split: prod.splits)
  have kb_log: "set (fst (load_knowledge_base env u))
                  \<subseteq> {Log INFO ''Knowledge base loaded successfully.''}
                    \<union> {Log WARNING (''Failed to load knowledge base: '' @ m) | m. True}" for u
    by (auto simp: load_knowledge_base_def split: sum.splits pyexc.splits)
  have kb_ud: "snd (snd (load_knowledge_base env u)) ''cartesia_voices'' = u ''cartesia_voices''" for u
    by (auto simp: load_knowledge_base_def split: sum.splits pyexc.splits)
  have a: "status_code r = 200 \<longrightarrow>
            (\<forall>j. response_json r = Inr j \<longrightarrow>
               snd (snd (prewarm env ud)) ''cartesia_voices'' = Some (Json j)
               \<and> (\<forall>m. Log WARNING (''Failed to fetch Cartesia voices: '' @ m) \<notin> set (fst (prewarm env ud))))"
  proof (intro impI allI conjI)
    fix j m assume h: "status_code r = 200" "response_json r = Inr j"
    show "snd (snd (prewarm env ud)) ''cartesia_voices'' = Some (Json j)"
      by (simp add: ok [OF h] kb_ud)
    show "Log WARNING (''Failed to fetch Cartesia voices: '' @ m) \<notin> set (fst (prewarm env ud))"
      using kb_log [of "?ud1(''cartesia_voices'' \<mapsto> Json j)"] by (auto simp: ok [OF h])
  qed
  have b: "status_code r \<noteq> 200 \<longrightarrow>
            snd (snd (prewarm env ud)) ''cartesia_voices'' = ud ''cartesia_voices''
            \<and> Log WARNING (''Failed to fetch Cartesia voices: '' @ str_int (status_code r))
                \<in> set (fst (prewarm env ud))"
    by (auto simp: nok kb_ud)
  have c: "fst (snd (prewarm env ud)) = None
               \<and> snd (snd (prewarm env ud)) ''knowledge_base'' = Some (Json k)
               \<and> (\<forall>m. Log WARNING (''Failed to load knowledge base: '' @ m) \<notin> set (fst (prewarm env ud)))"
    if p: "status_code r \<noteq> 200 \<or> (\<exists>j. response_json r = Inr j)" and k: "kb_attempt env = Inr k" for k
  proof (cases "status_code r = 200")
    case True
    with p obtain j where j: "response_json r = Inr j" by blast
    show ?thesis by (simp add: ok [OF True j] load_knowledge_base_ok [OF k])
  next
    case False
    show ?thesis by (simp add: nok [OF False] load_knowledge_base_ok [OF k])
  qed
  have d: "fst (snd (prewarm env ud)) = None
               \<and> snd (snd (prewarm env ud)) ''knowledge_base'' = ud ''knowledge_base''
               \<and> Log WARNING (''Failed to load knowledge base: '' @ msg) \<in> set (fst (prewarm env ud))"
    if p: "status_code r \<noteq> 200 \<or> (\<exists>j. response_json r = Inr j)"
      and k: "kb_attempt env = Inl (RequestException msg)" for msg
  proof (cases "status_code r = 200")
    case True
    with p obtain j where j: "response_json r = Inr j" by blast
    show ?thesis by (simp add: ok [OF True j] load_knowledge_base_failed [OF k])
  next
    case False
    show ?thesis by (simp add: nok [OF False] load_knowledge_base_failed [OF k])
  qed
  from a b c d show ?thesis by blast
qed

theorem prewarm_fetch_outcomes_witness:
  "snd (snd (prewarm ex_env_ok Map.empty)) ''cartesia_voices'' = Some (Json (JArr ex_catalogue))
   \<and> fst (snd (prewarm ex_env_ok Map.empty)) = None
   \<and> snd (snd (prewarm ex_env_ok Map.empty)) ''knowledge_base'' = Some (Json ex_knowledge_base)
   \<and> snd (snd (prewarm ex_env_down Map.empty)) ''cartesia_voices'' = None
   \<and> Log WARNING ''Failed to fetch Cartesia voices: 503'' \<in> set (fst (prewarm ex_env_down Map.empty))
   \<and> fst (snd (prewarm ex_env_down Map.empty)) = None
   \<and> snd (snd (prewarm ex_env_down Map.empty)) ''knowledge_base'' = None
   \<and> Log WARNING ''Failed to load knowledge base: connection refused''
       \<in> set (fst (prewarm ex_env_down Map.empty))"
proof -
  let ?r1 = "\<lparr>status_code = 200, response_json = Inr (JArr ex_catalogue), raise_for_status = None\<rparr>"
  let ?r0 = "\<lparr>status_code = 503, response_json = Inl (RequestException ''no JSON''),
              raise_for_status = Some (RequestException ''503 Server Error'')\<rparr>"
  have v1: "vad_load ex_env_ok = None" and v0: "vad_load ex_env_down = None"
    by (simp_all add: ex_env_ok_def ex_env_down_def)
  have g1: "requests_get ex_env_ok voices_url (voices_headers ex_env_ok) = Inr ?r1"
    by (simp add: ex_env_ok_def)
  have g0: "requests_get ex_env_down voices_url (voices_headers ex_env_down) = Inr ?r0"
    by (simp add: ex_env_down_def)
  have k1: "kb_attempt ex_env_ok = Inr ex_knowledge_base"
    by (simp add: kb_attempt_def ex_env_ok_def knowledge_base_url_def voices_url_def)
  have k0: "kb_attempt ex_env_down = Inl (RequestException ''connection refused'')"
    by (simp add: kb_attempt_def ex_env_down_def knowledge_base_url_def voices_url_def)
  note ok = prewarm_fetch_outcomes [OF v1 g1, of Map.empty]
  note down = prewarm_fetch_outcomes [OF v0 g0, of Map.empty]
  from ok k1 have
    "snd (snd (prewarm ex_env_ok Map.empty)) ''cartesia_voices'' = Some (Json (JArr ex_catalogue))"
    "fst (snd (prewarm ex_env_ok Map.empty)) = None"
    "snd (snd (prewarm ex_env_ok Map.empty)) ''knowledge_base'' = Some (Json ex_knowledge_base)"
    by simp_all
  moreover from down k0 have
    "snd (snd (prewarm ex_env_down Map.empty)) ''cartesia_voices'' = None"
    "Log WARNING ''Failed to fetch Cartesia voices: 503'' \<in> set (fst (prewarm ex_env_down Map.empty))"
    "fst (snd (prewarm ex_env_down Map.empty)) = None"
    "snd (snd (prewarm ex_env_down Map.empty)) ''knowledge_base'' = None"
    "Log WARNING ''Failed to load knowledge base: connection refused''
       \<in> set (fst (prewarm ex_env_down Map.empty))"
    by (simp_all add: str_int_503)
  ultimately show ?thesis by blast
qed

text \<open>
  The scenario of the specification: the catalogue answers 503, the key stays absent, and
  the session then ends with the lookup fault of line 93 before doing anything.
\<close>

lemma catalogue_503_then_session_fails:
  "entrypoint dm dl (snd (snd (prewarm ex_env_down Map.empty)))
   = ([], Inl (KeyError ''cartesia_voices''))"
  by (simp add: prewarm_def fetch_voices_def load_knowledge_base_def kb_attempt_def
        ex_env_down_def knowledge_base_url_def voices_url_def entrypoint_def read_userdata_def)

end
